theory Spec2Isabelle
  imports Complex_Main "HOL-Library.Sublist"
begin

section \<open>Python values and the string operations the pipeline uses\<close>

text \<open>
  The values that \<^verbatim>\<open>json.loads\<close> and \<^verbatim>\<open>res.json()\<close> hand to the program, together
  with the tuple that \<^verbatim>\<open>get_coordinates\<close> builds. \<open>PNone\<close> is Python's \<^verbatim>\<open>None\<close>
  (JSON \<^verbatim>\<open>null\<close>). A number is the real it denotes: the program only compares numbers
  with integer constants, which Python does exactly for ints and for finite floats.
  A dict is an association list with distinct keys, read with \<open>map_of\<close>.
  A \<open>string\<close> holds one \<open>char\<close> per Python character.
\<close>

datatype pyval =
    PNone
  | PBool bool
  | PNum real
  | PStr string
  | PList "pyval list"
  | PDict "(string \<times> pyval) list"
  | PTuple "pyval list"

datatype pyerr = TypeError | KeyError | IndexError | AttributeError

text \<open>Truth value of an object, as \<^verbatim>\<open>if x:\<close> takes it.\<close>

fun truthy :: "pyval \<Rightarrow> bool" where
  "truthy PNone = False"
| "truthy (PBool b) = b"
| "truthy (PNum x) = (x \<noteq> 0)"
| "truthy (PStr s) = (s \<noteq> [])"
| "truthy (PList xs) = (xs \<noteq> [])"
| "truthy (PDict kvs) = (kvs \<noteq> [])"
| "truthy (PTuple xs) = (xs \<noteq> [])"

text \<open>\<^verbatim>\<open>d.get(k)\<close>: only a dict has the method.\<close>

fun py_get :: "pyval \<Rightarrow> string \<Rightarrow> pyerr + pyval" where
  "py_get (PDict kvs) k = (case map_of kvs k of None \<Rightarrow> Inr PNone | Some v \<Rightarrow> Inr v)"
| "py_get _ k = Inl AttributeError"

text \<open>\<^verbatim>\<open>d[k]\<close> with a string key.\<close>

fun py_getitem :: "pyval \<Rightarrow> string \<Rightarrow> pyerr + pyval" where
  "py_getitem (PDict kvs) k = (case map_of kvs k of None \<Rightarrow> Inl KeyError | Some v \<Rightarrow> Inr v)"
| "py_getitem _ k = Inl TypeError"

text \<open>\<^verbatim>\<open>x[0]\<close>. The keys of a parsed JSON object are strings, so \<open>0\<close> is never one.\<close>

fun py_getitem0 :: "pyval \<Rightarrow> pyerr + pyval" where
  "py_getitem0 (PList []) = Inl IndexError"
| "py_getitem0 (PList (v # vs)) = Inr v"
| "py_getitem0 (PTuple []) = Inl IndexError"
| "py_getitem0 (PTuple (v # vs)) = Inr v"
| "py_getitem0 (PStr []) = Inl IndexError"
| "py_getitem0 (PStr (c # cs)) = Inr (PStr [c])"
| "py_getitem0 (PDict kvs) = Inl KeyError"
| "py_getitem0 _ = Inl TypeError"

text \<open>
  Comparisons with a numeric constant. \<^verbatim>\<open>bool\<close> is a subclass of \<^verbatim>\<open>int\<close>;
  \<^verbatim>\<open>==\<close> between unrelated types is \<^verbatim>\<open>False\<close>, an ordering between them raises.
\<close>

fun py_eq_num :: "pyval \<Rightarrow> real \<Rightarrow> bool" where
  "py_eq_num (PNum x) n = (x = n)"
| "py_eq_num (PBool b) n = ((if b then 1 else 0) = n)"
| "py_eq_num _ n = False"

fun py_le_num :: "pyval \<Rightarrow> real \<Rightarrow> pyerr + bool" where
  "py_le_num (PNum x) n = Inr (x \<le> n)"
| "py_le_num (PBool b) n = Inr ((if b then 1 else 0) \<le> n)"
| "py_le_num _ n = Inl TypeError"

fun py_gt_num :: "pyval \<Rightarrow> real \<Rightarrow> pyerr + bool" where
  "py_gt_num (PNum x) n = Inr (x > n)"
| "py_gt_num (PBool b) n = Inr ((if b then 1 else 0) > n)"
| "py_gt_num _ n = Inl TypeError"

text \<open>
  \<^verbatim>\<open>str.strip()\<close> removes the characters for which \<^verbatim>\<open>str.isspace()\<close> holds:
  below 256 these are 9..13, 28..32, 133 and 160.
\<close>

definition py_isspace :: "char \<Rightarrow> bool" where
  "py_isspace c =
     (let n = (of_char c :: nat)
      in (9 \<le> n \<and> n \<le> 13) \<or> (28 \<le> n \<and> n \<le> 32) \<or> n = 133 \<or> n = 160)"

definition py_strip :: "string \<Rightarrow> string" where
  "py_strip s = rev (dropWhile py_isspace (rev (dropWhile py_isspace s)))"

text \<open>
  \<^verbatim>\<open>s.replace(old, new)\<close>: the non-overlapping occurrences of \<open>old\<close>, found from the
  left, are replaced. With an empty \<open>old\<close>, \<open>new\<close> is put before every character and at
  the end.
\<close>

fun py_replace :: "string \<Rightarrow> string \<Rightarrow> string \<Rightarrow> string" where
  "py_replace old new s =
     (if old = [] then new @ concat (map (\<lambda>c. c # new) s)
      else if s = [] then []
      else if prefix old s then new @ py_replace old new (drop (length old) s)
      else hd s # py_replace old new (tl s))"

declare py_replace.simps [simp del]

text \<open>\<^verbatim>\<open>s.find(c)\<close> and \<^verbatim>\<open>s.rfind(c)\<close> for a one-character \<open>c\<close>: an index, or \<open>-1\<close>.\<close>

fun find_from :: "char \<Rightarrow> string \<Rightarrow> int \<Rightarrow> int" where
  "find_from c [] i = -1"
| "find_from c (x # xs) i = (if x = c then i else find_from c xs (i + 1))"

definition py_find :: "string \<Rightarrow> char \<Rightarrow> int" where
  "py_find s c = find_from c s 0"

definition py_rfind :: "string \<Rightarrow> char \<Rightarrow> int" where
  "py_rfind s c =
     (let k = find_from c (rev s) 0 in if k < 0 then -1 else int (length s) - 1 - k)"

text \<open>
  \<^verbatim>\<open>s[a:b]\<close>: a negative index counts from the end, both are clamped to the string,
  and the slice is empty when the start is not before the stop.
\<close>

definition slice_index :: "nat \<Rightarrow> int \<Rightarrow> nat" where
  "slice_index n i = (if i < 0 then nat (max (i + int n) 0) else min (nat i) n)"

definition py_slice :: "string \<Rightarrow> int \<Rightarrow> int \<Rightarrow> string" where
  "py_slice s a b =
     (let lo = slice_index (length s) a; hi = slice_index (length s) b
      in take (hi - lo) (drop lo s))"

text \<open>\<^verbatim>\<open>sep.join(xs)\<close>.\<close>

fun py_join :: "string \<Rightarrow> string list \<Rightarrow> string" where
  "py_join sep [] = []"
| "py_join sep [x] = x"
| "py_join sep (x # y # ys) = x @ sep @ py_join sep (y # ys)"

section \<open>tools.py: weather\<close>

text \<open>
  The two HTTP endpoints are the environment. \<open>geocode city\<close> is what
  \<^verbatim>\<open>await res.json()\<close> yields for the geocoding request of \<open>city\<close>, and \<open>None\<close> when
  the request or the decoding raises; \<open>forecast lat lon\<close> is the same for the forecast
  request.
\<close>

type_synonym geocoder = "string \<Rightarrow> pyval option"
type_synonym forecaster = "pyval \<Rightarrow> pyval \<Rightarrow> pyval option"

text \<open>
  \<^verbatim>\<open>get_coordinates\<close>. Every exception inside the \<^verbatim>\<open>try\<close> ends in
  \<^verbatim>\<open>return None, None\<close>. When \<^verbatim>\<open>data.get("results")\<close> is falsy the \<^verbatim>\<open>if\<close> is skipped,
  nothing is raised, and the function body ends without a \<^verbatim>\<open>return\<close>: the value is
  \<^verbatim>\<open>None\<close>.
\<close>

definition get_coordinates :: "geocoder \<Rightarrow> string \<Rightarrow> pyval" where
  "get_coordinates geocode city =
     (case geocode city of
        None \<Rightarrow> PTuple [PNone, PNone]
      | Some data \<Rightarrow>
          (case py_get data ''results'' of
             Inl e \<Rightarrow> PTuple [PNone, PNone]
           | Inr results \<Rightarrow>
               if truthy results then
                 (case py_getitem0 results of
                    Inl e \<Rightarrow> PTuple [PNone, PNone]
                  | Inr loc \<Rightarrow>
                      (case py_getitem loc ''latitude'' of
                         Inl e \<Rightarrow> PTuple [PNone, PNone]
                       | Inr lat \<Rightarrow>
                           (case py_getitem loc ''longitude'' of
                              Inl e \<Rightarrow> PTuple [PNone, PNone]
                            | Inr lon \<Rightarrow> PTuple [lat, lon])))
               else PNone))"

record weather =
  temperature :: pyval
  condition :: string
  recommendation :: string

definition default_weather :: weather where
  "default_weather =
     \<lparr>temperature = PNum 20, condition = ''unknown'', recommendation = ''indoor''\<rparr>"

text \<open>The \<^verbatim>\<open>if\<close>/\<^verbatim>\<open>elif\<close> chain over the weather code.\<close>

definition code_condition :: "pyval \<Rightarrow> pyerr + string" where
  "code_condition code =
     (if py_eq_num code 0 then Inr ''clear''
      else
        (case py_le_num code 3 of
           Inl e \<Rightarrow> Inl e
         | Inr le3 \<Rightarrow>
             if le3 then Inr ''cloudy''
             else
               (case py_le_num code 67 of
                  Inl e \<Rightarrow> Inl e
                | Inr le67 \<Rightarrow> if le67 then Inr ''rainy'' else Inr ''stormy'')))"

text \<open>
  The body of the \<^verbatim>\<open>try\<close> of \<^verbatim>\<open>get_weather\<close>, from the decoded response on.
  \<^verbatim>\<open>and\<close> evaluates \<^verbatim>\<open>temp > 15\<close> only when the condition is clear.
\<close>

definition forecast_reading :: "pyval \<Rightarrow> pyerr + weather" where
  "forecast_reading data =
     (case py_getitem data ''current'' of
        Inl e \<Rightarrow> Inl e
      | Inr current \<Rightarrow>
          (case py_getitem current ''temperature_2m'' of
             Inl e \<Rightarrow> Inl e
           | Inr temp \<Rightarrow>
               (case py_getitem current ''weather_code'' of
                  Inl e \<Rightarrow> Inl e
                | Inr code \<Rightarrow>
                    (case code_condition code of
                       Inl e \<Rightarrow> Inl e
                     | Inr cond \<Rightarrow>
                         (case (if cond = ''clear'' then py_gt_num temp 15 else Inr False) of
                            Inl e \<Rightarrow> Inl e
                          | Inr is_outdoor \<Rightarrow>
                              Inr \<lparr>temperature = temp, condition = cond,
                                   recommendation =
                                     (if is_outdoor then ''outdoor'' else ''indoor'')\<rparr>)))))"

text \<open>
  \<^verbatim>\<open>get_weather\<close>. The unpacking \<^verbatim>\<open>lat, lon = await get_coordinates(city)\<close> stands before
  the \<^verbatim>\<open>try\<close>: unpacking \<^verbatim>\<open>None\<close> raises \<^verbatim>\<open>TypeError\<close> to the caller (\<open>Inl\<close>).
\<close>

definition get_weather :: "geocoder \<Rightarrow> forecaster \<Rightarrow> string \<Rightarrow> pyerr + weather" where
  "get_weather geocode forecast city =
     (case get_coordinates geocode city of
        PTuple [lat, lon] \<Rightarrow>
          if lat = PNone then Inr default_weather
          else
            (case forecast lat lon of
               None \<Rightarrow> Inr default_weather
             | Some data \<Rightarrow>
                 (case forecast_reading data of
                    Inl e \<Rightarrow> Inr default_weather
                  | Inr w \<Rightarrow> Inr w))
      | _ \<Rightarrow> Inl TypeError)"

section \<open>tools.py: restaurant snippets\<close>

text \<open>
  The search library and the fetched pages are the environment.
  \<open>search query\<close> gives the URLs the generator yields and whether it then raises;
  \<open>page_text url\<close> is \<^verbatim>\<open>soup.get_text(separator=" ")\<close> of the page after the script and
  style tags are removed, and \<open>None\<close> when the request or the parser raises.
\<close>

record web =
  googlesearch_installed :: bool
  search :: "string \<Rightarrow> string list \<times> bool"
  page_text :: "string \<Rightarrow> string option"

text \<open>The \<^verbatim>\<open>for url in search(...)\<close> loop, with \<open>results\<close> as its state.\<close>

fun scrape_urls :: "(string \<Rightarrow> string option) \<Rightarrow> string list \<Rightarrow> string list \<Rightarrow> string list" where
  "scrape_urls fetch [] results = results"
| "scrape_urls fetch (url # urls) results =
     (case fetch url of
        None \<Rightarrow> scrape_urls fetch urls results
      | Some text \<Rightarrow>
          (let content = py_strip text
           in if length content > 200
              then scrape_urls fetch urls (results @ [take 2000 content])
              else scrape_urls fetch urls results))"

text \<open>
  \<^verbatim>\<open>scrape_restaurants_for_dish\<close>. A raise of the generator is caught by the outer
  \<^verbatim>\<open>try\<close> and only printed, so the results gathered until then are returned.
\<close>

definition scrape_restaurants_for_dish :: "web \<Rightarrow> string \<Rightarrow> string \<Rightarrow> string list" where
  "scrape_restaurants_for_dish w city dish =
     (if \<not> googlesearch_installed w then []
      else
        (case search w (''best restaurants in '' @ city @ '' serving '' @ dish) of
           (urls, raised) \<Rightarrow> scrape_urls (page_text w) urls []))"

section \<open>tools.py: the coordinate cache\<close>

text \<open>
  \<^verbatim>\<open>_coordinate_cache\<close> is a module-level dict, here a map passed in and returned.
  The third component counts the geocoding requests the call issued.
\<close>

definition get_coordinates_cached ::
  "geocoder \<Rightarrow> string \<Rightarrow> (string \<rightharpoonup> pyval) \<Rightarrow> pyval \<times> (string \<rightharpoonup> pyval) \<times> nat" where
  "get_coordinates_cached geocode city cache =
     (case cache city of
        Some coords \<Rightarrow> (coords, cache, 0)
      | None \<Rightarrow>
          (let coords = get_coordinates geocode city
           in (coords, cache(city \<mapsto> coords), 1)))"

text \<open>A run of calls, each with the geocoder as it answers at that moment.\<close>

fun cached_calls :: "(geocoder \<times> string) list \<Rightarrow> (string \<rightharpoonup> pyval) \<Rightarrow> (string \<rightharpoonup> pyval)" where
  "cached_calls [] cache = cache"
| "cached_calls ((geocode, city) # calls) cache =
     cached_calls calls (fst (snd (get_coordinates_cached geocode city cache)))"

section \<open>The agent-execution service\<close>

text \<open>
  \<^verbatim>\<open>client\<close> (module \<^verbatim>\<open>julep_client\<close>) is the hosted service. One run of a task sees
  whether \<^verbatim>\<open>tasks.create\<close> and \<^verbatim>\<open>executions.create\<close> return or raise, what the
  \<open>i\<close>-th call of \<^verbatim>\<open>executions.get\<close> answers, and what the \<open>i\<close>-th call of
  \<^verbatim>\<open>time.time()\<close> reads. \<^verbatim>\<open>json.loads\<close> is the standard library's parser: a parameter,
  \<open>None\<close> when it raises.
\<close>

record message =
  role :: string
  content :: "string option"

datatype get_result = GetRaises | GetReturns string "message list"

record service =
  tasks_create :: bool
  executions_create :: bool
  executions_get :: "nat \<Rightarrow> get_result"
  time_time :: "nat \<Rightarrow> real"

type_synonym json_loads = "string \<Rightarrow> pyval option"

text \<open>
  What a prompt interpolates into its fixed text: for the tour the city, the weather,
  the dining type and the restaurant context; for the dishes the city and the slice of
  the scraped text.
\<close>

datatype prompt = TourPrompt string weather string string | DishPrompt string string

text \<open>The calls a run makes, in order.\<close>

datatype event = TasksCreate prompt | ExecutionsCreate | ExecutionsGet | Sleep nat

datatype poll_outcome = Raised | TimedOut | Terminal string "message list"

text \<open>
  The polling loop, the same in all four functions:
  \<^verbatim>\<open>while (result := client.executions.get(execution.id)).status not in ['succeeded', 'failed']:
      time.sleep(2)
      if time.time() > timeout: return ...\<close>
  \<open>i\<close> counts the sleeps done so far, so the next reading of the clock is
  \<open>time_time svc (Suc i)\<close> (reading \<open>0\<close> set the deadline). The loop has no bound of its own:
  a run that never leaves it is \<open>None\<close>.
\<close>

partial_function (option) poll ::
  "service \<Rightarrow> real \<Rightarrow> nat \<Rightarrow> event list \<Rightarrow> (poll_outcome \<times> event list) option" where
  "poll svc timeout i tr =
     (case executions_get svc i of
        GetRaises \<Rightarrow> Some (Raised, tr @ [ExecutionsGet])
      | GetReturns status out \<Rightarrow>
          if status \<in> set [''succeeded'', ''failed'']
          then Some (Terminal status out, tr @ [ExecutionsGet])
          else if time_time svc (Suc i) > timeout
          then Some (TimedOut, tr @ [ExecutionsGet, Sleep 2])
          else poll svc timeout (Suc i) (tr @ [ExecutionsGet, Sleep 2]))"

text \<open>
  Create the task, create the execution, set the deadline \<open>secs\<close> seconds from now,
  poll. A raise of either creation is caught by the caller's \<^verbatim>\<open>except Exception\<close>.
\<close>

definition run_execution ::
  "service \<Rightarrow> prompt \<Rightarrow> real \<Rightarrow> (poll_outcome \<times> event list) option" where
  "run_execution svc p secs =
     (if \<not> tasks_create svc then Some (Raised, [TasksCreate p])
      else if \<not> executions_create svc then Some (Raised, [TasksCreate p, ExecutionsCreate])
      else poll svc (time_time svc 0 + secs) 0 [TasksCreate p, ExecutionsCreate])"

section \<open>main.py and final-ui.py: the tour\<close>

text \<open>
  The test \<^verbatim>\<open>item["role"] == "assistant" and item.get("content")\<close>, with the content
  when it holds.
\<close>

definition assistant_text :: "message \<Rightarrow> string option" where
  "assistant_text item =
     (if role item = ''assistant''
      then (case content item of None \<Rightarrow> None | Some s \<Rightarrow> if s = [] then None else Some s)
      else None)"

text \<open>
  \<^verbatim>\<open>extract_final_json_from_output\<close> (the same text in both files): the first message of
  the reversed list that passes the test decides.
\<close>

fun final_json_scan :: "json_loads \<Rightarrow> message list \<Rightarrow> pyval" where
  "final_json_scan loads [] = PNone"
| "final_json_scan loads (item # items) =
     (case assistant_text item of
        None \<Rightarrow> final_json_scan loads items
      | Some t \<Rightarrow>
          (let start = py_find t (CHR ''{'');
               end = py_rfind t (CHR ''}'');
               json_str = py_slice t start (end + 1)
           in case loads json_str of None \<Rightarrow> PNone | Some v \<Rightarrow> v))"

definition extract_final_json_from_output :: "json_loads \<Rightarrow> message list \<Rightarrow> pyval" where
  "extract_final_json_from_output loads output_list = final_json_scan loads (rev output_list)"

definition dining_type :: "weather \<Rightarrow> string" where
  "dining_type w = (if recommendation w = ''outdoor'' then ''outdoor'' else ''indoor'')"

text \<open>The restaurant context of main.py: \<^verbatim>\<open>f"\n{dish}: {'; '.join(restaurants[:3])}"\<close>.\<close>

definition restaurant_context_main :: "string list \<Rightarrow> string list list \<Rightarrow> string" where
  "restaurant_context_main dishes restaurant_infos =
     foldl (\<lambda>ctx (dish, restaurants).
              ctx @ [CHR 0x0A] @ dish @ '': '' @ py_join ''; '' (take 3 restaurants))
       [] (zip dishes restaurant_infos)"

text \<open>The restaurant context of final-ui.py: two snippets, and a phrase when there are none.\<close>

definition restaurant_context_ui :: "string list \<Rightarrow> string list list \<Rightarrow> string" where
  "restaurant_context_ui dishes restaurant_infos =
     foldl (\<lambda>ctx (dish, restaurants).
              if restaurants \<noteq> []
              then ctx @ [CHR 0x0A] @ dish @ '': '' @ py_join ''; '' (take 2 restaurants)
              else ctx @ [CHR 0x0A] @ dish @ '': Popular local restaurants'')
       [] (zip dishes restaurant_infos)"

text \<open>What both tour functions do with the outcome of the run.\<close>

fun tour_of_outcome :: "json_loads \<Rightarrow> poll_outcome \<Rightarrow> pyval" where
  "tour_of_outcome loads Raised = PNone"
| "tour_of_outcome loads TimedOut = PNone"
| "tour_of_outcome loads (Terminal status out) =
     (if status = ''succeeded'' then extract_final_json_from_output loads out else PNone)"

text \<open>\<^verbatim>\<open>generate_foodie_tour\<close> of main.py.\<close>

definition generate_foodie_tour ::
  "json_loads \<Rightarrow> service \<Rightarrow> string \<Rightarrow> weather \<Rightarrow> string list \<Rightarrow> string list list
     \<Rightarrow> (pyval \<times> event list) option" where
  "generate_foodie_tour loads svc city w dishes restaurant_infos =
     (case run_execution svc
             (TourPrompt city w (dining_type w) (restaurant_context_main dishes restaurant_infos))
             60 of
        None \<Rightarrow> None
      | Some (outcome, tr) \<Rightarrow> Some (tour_of_outcome loads outcome, tr))"

text \<open>\<^verbatim>\<open>generate_tour\<close> of final-ui.py.\<close>

definition generate_tour ::
  "json_loads \<Rightarrow> service \<Rightarrow> string \<Rightarrow> weather \<Rightarrow> string list \<Rightarrow> string list list
     \<Rightarrow> (pyval \<times> event list) option" where
  "generate_tour loads svc city w dishes restaurant_infos =
     (case run_execution svc
             (TourPrompt city w (dining_type w) (restaurant_context_ui dishes restaurant_infos))
             60 of
        None \<Rightarrow> None
      | Some (outcome, tr) \<Rightarrow> Some (tour_of_outcome loads outcome, tr))"

section \<open>main.py and final-ui.py: the dishes\<close>

definition fallback_dishes :: "pyval list" where
  "fallback_dishes =
     [PStr ''Traditional Dish 1'', PStr ''Traditional Dish 2'', PStr ''Traditional Dish 3'']"

text \<open>
  The clean-up before \<^verbatim>\<open>json.loads\<close>: strip, and when the text starts with a fence,
  delete every \<^verbatim>\<open>```json\<close> and every \<^verbatim>\<open>```\<close> and strip again.
\<close>

definition fence_stripped :: "string \<Rightarrow> string" where
  "fence_stripped c =
     (let content = py_strip c
      in if prefix ''```json'' content
         then py_strip (py_replace ''```'' [] (py_replace ''```json'' [] content))
         else if prefix ''```'' content
         then py_strip (py_replace ''```'' [] content)
         else content)"

text \<open>
  The \<^verbatim>\<open>for item in reversed(result.output)\<close> loop of the extractor. A parse failure
  (\<^verbatim>\<open>except: continue\<close>), a value that is not a list and a list shorter than 3 all go
  on to the next item; when the loop ends the fallback is returned.
\<close>

fun dishes_scan :: "json_loads \<Rightarrow> message list \<Rightarrow> pyval list" where
  "dishes_scan loads [] = fallback_dishes"
| "dishes_scan loads (item # items) =
     (case assistant_text item of
        None \<Rightarrow> dishes_scan loads items
      | Some c \<Rightarrow>
          (case loads (fence_stripped c) of
             Some (PList dishes) \<Rightarrow>
               if length dishes \<ge> 3 then take 3 dishes else dishes_scan loads items
           | _ \<Rightarrow> dishes_scan loads items))"

fun dishes_of_outcome :: "json_loads \<Rightarrow> poll_outcome \<Rightarrow> pyval list" where
  "dishes_of_outcome loads Raised = fallback_dishes"
| "dishes_of_outcome loads TimedOut = fallback_dishes"
| "dishes_of_outcome loads (Terminal status out) =
     (if status = ''succeeded'' then dishes_scan loads (rev out) else fallback_dishes)"

text \<open>
  \<^verbatim>\<open>extract_dishes_from_text\<close> of final-ui.py. \<open>None\<close> for \<open>dish_text\<close> is Python's
  \<^verbatim>\<open>None\<close>, which \<^verbatim>\<open>scrape_top_dish_results\<close> returns when it found nothing.
\<close>

definition extract_dishes_from_text_ui ::
  "json_loads \<Rightarrow> service \<Rightarrow> string \<Rightarrow> string option \<Rightarrow> (pyval list \<times> event list) option" where
  "extract_dishes_from_text_ui loads svc city dish_text =
     (case dish_text of
        None \<Rightarrow> Some (fallback_dishes, [])
      | Some t \<Rightarrow>
          if t = [] then Some (fallback_dishes, [])
          else
            (case run_execution svc (DishPrompt city (take 2000 t)) 30 of
               None \<Rightarrow> None
             | Some (outcome, tr) \<Rightarrow> Some (dishes_of_outcome loads outcome, tr)))"

text \<open>
  \<^verbatim>\<open>extract_dishes_from_text\<close> of main.py. It has no test of \<open>dish_text\<close>; the prompt,
  built before the \<^verbatim>\<open>try\<close>, slices it, and slicing \<^verbatim>\<open>None\<close> raises \<^verbatim>\<open>TypeError\<close>.
\<close>

definition extract_dishes_from_text_main ::
  "json_loads \<Rightarrow> service \<Rightarrow> string \<Rightarrow> string option
     \<Rightarrow> ((pyerr + pyval list) \<times> event list) option" where
  "extract_dishes_from_text_main loads svc city dish_text =
     (case dish_text of
        None \<Rightarrow> Some (Inl TypeError, [])
      | Some t \<Rightarrow>
          (case run_execution svc (DishPrompt city (take 3000 t)) 30 of
             None \<Rightarrow> None
           | Some (outcome, tr) \<Rightarrow> Some (Inr (dishes_of_outcome loads outcome), tr)))"

text \<open>
  The dish step of \<^verbatim>\<open>run_workflow\<close> of main.py: \<^verbatim>\<open>if not dish_text:\<close> takes the fallback
  list, otherwise the extractor is called.
\<close>

definition run_workflow_dishes ::
  "json_loads \<Rightarrow> service \<Rightarrow> string \<Rightarrow> string option
     \<Rightarrow> ((pyerr + pyval list) \<times> event list) option" where
  "run_workflow_dishes loads svc city dish_text =
     (if dish_text = None \<or> dish_text = Some [] then Some (Inr fallback_dishes, [])
      else extract_dishes_from_text_main loads svc city dish_text)"

section \<open>What the polling loop guarantees\<close>

text \<open>The loop condition at the \<open>i\<close>-th call of \<^verbatim>\<open>executions.get\<close>: it returned, with a
  status that is neither \<^verbatim>\<open>succeeded\<close> nor \<^verbatim>\<open>failed\<close>.\<close>

definition running :: "service \<Rightarrow> nat \<Rightarrow> bool" where
  "running svc i =
     (case executions_get svc i of
        GetRaises \<Rightarrow> False
      | GetReturns status out \<Rightarrow> status \<notin> set [''succeeded'', ''failed''])"

text \<open>\<open>k\<close> rounds of the loop body: a call of \<^verbatim>\<open>executions.get\<close>, then two seconds of sleep.\<close>

definition rounds :: "nat \<Rightarrow> event list" where
  "rounds k = concat (replicate k [ExecutionsGet, Sleep 2])"

text \<open>
  How a loop entered at call \<open>i\<close> with the events \<open>tr\<close> behind it has ended, when call
  \<open>k\<close> was its last: that call raised, or it answered a final status, or it answered
  another status and the clock read after the sleep was past the deadline \<open>d\<close>.
\<close>

fun poll_post ::
  "service \<Rightarrow> real \<Rightarrow> nat \<Rightarrow> event list \<Rightarrow> nat \<Rightarrow> poll_outcome \<times> event list \<Rightarrow> bool" where
  "poll_post svc d i tr k (Raised, tr') =
     (executions_get svc k = GetRaises \<and> tr' = tr @ rounds (k - i) @ [ExecutionsGet])"
| "poll_post svc d i tr k (TimedOut, tr') =
     (running svc k \<and> d < time_time svc (Suc k) \<and> tr' = tr @ rounds (Suc k - i))"
| "poll_post svc d i tr k (Terminal status out, tr') =
     (executions_get svc k = GetReturns status out \<and> status \<in> set [''succeeded'', ''failed'']
      \<and> tr' = tr @ rounds (k - i) @ [ExecutionsGet])"

section \<open>The TourPlan schema of the specification\<close>

text \<open>
  The shape the specification gives a TourPlan: a city string, a weather object with a
  numeric temperature and the strings condition and dining, three iconic dishes that are
  strings, and a tour whose breakfast, lunch and dinner each hold five strings. These
  predicates follow the specification's words; no function of the source checks them.
\<close>

definition has_string :: "(string \<times> pyval) list \<Rightarrow> string \<Rightarrow> bool" where
  "has_string kvs k = (case map_of kvs k of Some (PStr s) \<Rightarrow> True | _ \<Rightarrow> False)"

definition has_number :: "(string \<times> pyval) list \<Rightarrow> string \<Rightarrow> bool" where
  "has_number kvs k = (case map_of kvs k of Some (PNum x) \<Rightarrow> True | _ \<Rightarrow> False)"

definition spec_meal :: "(string \<times> pyval) list \<Rightarrow> string \<Rightarrow> bool" where
  "spec_meal kvs k =
     (case map_of kvs k of
        Some (PDict meal) \<Rightarrow>
          list_all (has_string meal)
            [''restaurant'', ''address'', ''dish'', ''description'', ''weather_consideration'']
      | _ \<Rightarrow> False)"

definition spec_tour_plan :: "pyval \<Rightarrow> bool" where
  "spec_tour_plan v =
     (case v of
        PDict kvs \<Rightarrow>
          has_string kvs ''city''
          \<and> (case map_of kvs ''weather'' of
                Some (PDict w) \<Rightarrow>
                  has_number w ''temperature'' \<and> has_string w ''condition'' \<and> has_string w ''dining''
              | _ \<Rightarrow> False)
          \<and> (case map_of kvs ''iconic_dishes'' of
                Some (PList ds) \<Rightarrow>
                  length ds = 3 \<and> list_all (\<lambda>d. case d of PStr s \<Rightarrow> True | _ \<Rightarrow> False) ds
              | _ \<Rightarrow> False)
          \<and> (case map_of kvs ''tour'' of
                Some (PDict t) \<Rightarrow> list_all (spec_meal t) [''breakfast'', ''lunch'', ''dinner'']
              | _ \<Rightarrow> False)
      | _ \<Rightarrow> False)"

section \<open>Sample environments\<close>

text \<open>A geocoder and a forecast for Paris on a clear day of 22 degrees.\<close>

definition paris_geo :: geocoder where
  "paris_geo city =
     Some (PDict [(''results'',
       PList [PDict [(''latitude'', PNum 48.85), (''longitude'', PNum 2.35)]])])"

definition paris_fc :: forecaster where
  "paris_fc lat lon =
     Some (PDict [(''current'',
       PDict [(''temperature_2m'', PNum 22), (''weather_code'', PNum 0)])])"

text \<open>The geocoding answer for a name with no match: the \<open>results\<close> key is absent.\<close>

definition no_match_geo :: geocoder where
  "no_match_geo city = Some (PDict [(''generationtime_ms'', PNum 0.5)])"

text \<open>
  A web whose search yields three URLs and then raises: the first page cannot be
  fetched, the second is short, the third has 2500 characters between blanks.
\<close>

definition sample_web :: web where
  "sample_web =
     \<lparr>googlesearch_installed = True,
      search = (\<lambda>q. ([''u1'', ''u2'', ''u3''], True)),
      page_text = (\<lambda>u. if u = ''u2'' then Some ''  closed  ''
                        else if u = ''u3'' then Some ('' '' @ replicate 2500 (CHR ''a'') @ '' '')
                        else None)\<rparr>"

text \<open>
  A parser given by the finite table of its parses; it rejects every other text. The
  tables used below hold parses that \<^verbatim>\<open>json.loads\<close> makes and are asked about no text
  that \<^verbatim>\<open>json.loads\<close> accepts outside them.
\<close>

definition loads_table :: "(string \<times> pyval) list \<Rightarrow> json_loads" where
  "loads_table tbl s = map_of tbl s"

text \<open>
  A service that creates the task and the execution, answers every call of
  \<^verbatim>\<open>executions.get\<close> with the same status and output, and whose clock shows \<open>step\<close> more
  seconds at each reading.
\<close>

definition answering :: "string \<Rightarrow> message list \<Rightarrow> real \<Rightarrow> service" where
  "answering status out step =
     \<lparr>tasks_create = True, executions_create = True,
      executions_get = (\<lambda>i. GetReturns status out),
      time_time = (\<lambda>i. step * real i)\<rparr>"

definition assistant_says :: "string \<Rightarrow> message" where
  "assistant_says t = \<lparr>role = ''assistant'', content = Some t\<rparr>"

section \<open>Properties of tools.py\<close>

text \<open>
  C2 (the code departs from it): the claim is that \<^verbatim>\<open>get_weather\<close> never raises and that
  a geocoding answer with no match gives the pair of \<^verbatim>\<open>None\<close> and then the default
  reading. For an answer without results \<^verbatim>\<open>get_coordinates\<close> returns a bare
  \<^verbatim>\<open>None\<close>, and \<^verbatim>\<open>get_weather\<close> raises \<^verbatim>\<open>TypeError\<close> when it unpacks it.
\<close>

theorem get_weather_no_match_raises:
  "get_coordinates no_match_geo ''Qqqqzzzz'' = PNone \<and>
   get_weather no_match_geo forecast ''Qqqqzzzz'' = Inl TypeError"
  by (simp add: get_weather_def get_coordinates_def no_match_geo_def)

text \<open>
  C6: for a numeric weather code \<open>c\<close> and a numeric temperature \<open>t\<close> in the forecast
  answer, \<^verbatim>\<open>get_weather\<close> returns a reading with that temperature whose condition is
  clear for 0, cloudy for 1..3, rainy for 4..67 and stormy above 67, and whose
  recommendation is outdoor exactly when the condition is clear and \<open>t > 15\<close>, and indoor
  otherwise.
\<close>

theorem get_weather_thresholds:
  assumes "get_coordinates geocode city = PTuple [lat, lon]" and "lat \<noteq> PNone"
    and "forecast lat lon = Some data"
    and "py_getitem data ''current'' = Inr cur"
    and "py_getitem cur ''temperature_2m'' = Inr (PNum t)"
    and "py_getitem cur ''weather_code'' = Inr (PNum c)"
  shows "\<exists>w. get_weather geocode forecast city = Inr w \<and> temperature w = PNum t
      \<and> (c = 0 \<longrightarrow> condition w = ''clear'')
      \<and> (1 \<le> c \<and> c \<le> 3 \<longrightarrow> condition w = ''cloudy'')
      \<and> (4 \<le> c \<and> c \<le> 67 \<longrightarrow> condition w = ''rainy'')
      \<and> (67 < c \<longrightarrow> condition w = ''stormy'')
      \<and> (recommendation w = ''outdoor'' \<longleftrightarrow> condition w = ''clear'' \<and> 15 < t)
      \<and> (recommendation w = ''indoor'' \<longleftrightarrow> \<not> (condition w = ''clear'' \<and> 15 < t))"
  using assms by (simp add: get_weather_def forecast_reading_def code_condition_def)

text \<open>The scenario of the claim: Paris, weather code 0, 22 degrees.\<close>

theorem get_weather_thresholds_witness:
  "get_coordinates paris_geo ''Paris'' = PTuple [PNum 48.85, PNum 2.35] \<and>
   (\<exists>w. get_weather paris_geo paris_fc ''Paris'' = Inr w \<and> temperature w = PNum 22 \<and>
        condition w = ''clear'' \<and> recommendation w = ''outdoor'')"
proof -
  let ?cur = "PDict [(''temperature_2m'', PNum 22), (''weather_code'', PNum 0)]"
  have h1: "get_coordinates paris_geo ''Paris'' = PTuple [PNum 48.85, PNum 2.35]"
    by (simp add: get_coordinates_def paris_geo_def)
  have h2: "PNum 48.85 \<noteq> PNone" by simp
  have h3: "paris_fc (PNum 48.85) (PNum 2.35) = Some (PDict [(''current'', ?cur)])"
    by (simp add: paris_fc_def)
  have h4: "py_getitem (PDict [(''current'', ?cur)]) ''current'' = Inr ?cur" by simp
  have h5: "py_getitem ?cur ''temperature_2m'' = Inr (PNum 22)" by simp
  have h6: "py_getitem ?cur ''weather_code'' = Inr (PNum 0)" by simp
  from get_weather_thresholds [where forecast = paris_fc, OF h1 h2 h3 h4 h5 h6] h1
  show ?thesis by auto
qed

lemma snippet_take:
  "200 < length c \<Longrightarrow> 200 < length (take 2000 c) \<and> length (take 2000 c) \<le> 2000"
  by (simp del: take_eq_Nil)

lemma scrape_urls_bounds:
  "list_all (\<lambda>s. 200 < length s \<and> length s \<le> 2000) results \<Longrightarrow>
   list_all (\<lambda>s. 200 < length s \<and> length s \<le> 2000) (scrape_urls fetch urls results)"
proof (induction urls arbitrary: results)
  case Nil
  then show ?case by simp
next
  case (Cons url urls)
  show ?case
  proof (cases "fetch url")
    case None
    then show ?thesis using Cons by simp
  next
    case (Some body)
    show ?thesis
    proof (cases "200 < length (py_strip body)")
      case True
      then have "list_all (\<lambda>s. 200 < length s \<and> length s \<le> 2000)
                   (results @ [take 2000 (py_strip body)])"
        using Cons.prems snippet_take [of "py_strip body"] by simp
      then have "list_all (\<lambda>s. 200 < length s \<and> length s \<le> 2000)
                   (scrape_urls fetch urls (results @ [take 2000 (py_strip body)]))"
        by (rule Cons.IH)
      then show ?thesis using Some True by (simp add: Let_def)
    next
      case False
      then show ?thesis using Some Cons by (simp add: Let_def)
    qed
  qed
qed

lemma scrape_urls_all_fail:
  "list_all (\<lambda>u. fetch u = None) urls \<Longrightarrow> scrape_urls fetch urls results = results"
  by (induction urls arbitrary: results) simp_all

lemma py_strip_padded:
  "\<not> py_isspace c \<Longrightarrow> 0 < n \<Longrightarrow> py_strip ('' '' @ replicate n c @ '' '') = replicate n c"
  by (cases n) (simp_all add: py_strip_def py_isspace_def dropWhile_append3)

lemma scrape_urls_eq:
  "scrape_urls fetch urls results =
     results @ map (take 2000)
                 (filter (\<lambda>c. 200 < length c) (map py_strip (List.map_filter fetch urls)))"
proof (induction urls arbitrary: results)
  case Nil
  show ?case by (simp add: map_filter_simps)
next
  case (Cons url urls)
  show ?case
  proof (cases "fetch url")
    case None
    then show ?thesis using Cons by (simp add: map_filter_simps)
  next
    case (Some body)
    then show ?thesis using Cons by (simp add: map_filter_simps Let_def)
  qed
qed

text \<open>
  C8 (as amended): \<^verbatim>\<open>scrape_restaurants_for_dish\<close> returns a list in every case (its model
  has no error value to return: every raise in the source is caught inside it). Without
  the search library the list is empty. With it, and whether or not the search raises
  after the URLs it yielded, the list holds, in the order of those URLs, the first 2000
  characters of every page text that could be fetched and is, once stripped, longer
  than 200 characters. So the list is empty when the search yields no URL and when the
  fetch of every URL fails, and every snippet has more than 200 and at most 2000
  characters.
\<close>

theorem scrape_restaurants_for_dish_recovers:
  "(\<not> googlesearch_installed w \<longrightarrow> scrape_restaurants_for_dish w city dish = [])
   \<and> (\<forall>urls raised.
         googlesearch_installed w
         \<and> search w (''best restaurants in '' @ city @ '' serving '' @ dish) = (urls, raised)
         \<longrightarrow> scrape_restaurants_for_dish w city dish =
               map (take 2000)
                 (filter (\<lambda>c. 200 < length c)
                    (map py_strip (List.map_filter (page_text w) urls))))
   \<and> (fst (search w (''best restaurants in '' @ city @ '' serving '' @ dish)) = []
        \<longrightarrow> scrape_restaurants_for_dish w city dish = [])
   \<and> (list_all (\<lambda>u. page_text w u = None)
          (fst (search w (''best restaurants in '' @ city @ '' serving '' @ dish)))
        \<longrightarrow> scrape_restaurants_for_dish w city dish = [])
   \<and> list_all (\<lambda>s. 200 < length s \<and> length s \<le> 2000) (scrape_restaurants_for_dish w city dish)"
proof -
  let ?q = "''best restaurants in '' @ city @ '' serving '' @ dish"
  obtain urls raised where q: "search w ?q = (urls, raised)" by (cases "search w ?q")
  have a: "\<not> googlesearch_installed w \<longrightarrow> scrape_restaurants_for_dish w city dish = []"
    by (simp add: scrape_restaurants_for_dish_def)
  have x: "\<forall>urls raised.
         googlesearch_installed w \<and> search w ?q = (urls, raised)
         \<longrightarrow> scrape_restaurants_for_dish w city dish =
               map (take 2000)
                 (filter (\<lambda>c. 200 < length c)
                    (map py_strip (List.map_filter (page_text w) urls)))"
    by (simp add: scrape_restaurants_for_dish_def scrape_urls_eq)
  have b: "fst (search w ?q) = [] \<longrightarrow> scrape_restaurants_for_dish w city dish = []"
    using q by (simp add: scrape_restaurants_for_dish_def)
  have c: "list_all (\<lambda>u. page_text w u = None) (fst (search w ?q))
             \<longrightarrow> scrape_restaurants_for_dish w city dish = []"
    using q scrape_urls_all_fail [of "page_text w" urls "[]"]
    by (simp add: scrape_restaurants_for_dish_def)
  have "list_all (\<lambda>s. 200 < length s \<and> length s \<le> 2000) (scrape_urls (page_text w) urls [])"
    by (rule scrape_urls_bounds) simp
  then have d: "list_all (\<lambda>s. 200 < length s \<and> length s \<le> 2000)
                  (scrape_restaurants_for_dish w city dish)"
    using q by (simp add: scrape_restaurants_for_dish_def)
  from a x b c d show ?thesis by (intro conjI)
qed

text \<open>
  C8 as stated fails: the search of the sample web raises after it yielded three URLs,
  and the snippet gathered from the third is returned, not an empty list.
\<close>

theorem scrape_restaurants_search_raises_midway:
  "search sample_web (''best restaurants in '' @ ''Paris'' @ '' serving '' @ ''Crepe'')
     = ([''u1'', ''u2'', ''u3''], True)
   \<and> scrape_restaurants_for_dish sample_web ''Paris'' ''Crepe'' = [replicate 2000 (CHR ''a'')]
   \<and> scrape_restaurants_for_dish sample_web ''Paris'' ''Crepe'' \<noteq> []"
proof -
  have s2: "py_strip ''  closed  '' = ''closed''"
    by (simp add: py_strip_def py_isspace_def)
  have s3: "py_strip ('' '' @ replicate 2500 (CHR ''a'') @ '' '') = replicate 2500 (CHR ''a'')"
    by (rule py_strip_padded) (simp_all add: py_isspace_def)
  show ?thesis
    using s2 s3 by (simp add: scrape_restaurants_for_dish_def sample_web_def Let_def)
qed

text \<open>
  With the library missing, with a search that raises at once, and with two pages that
  cannot be fetched the result is empty; the sample web, whose search raises after three
  URLs, gives one snippet of 2000 characters.
\<close>

theorem scrape_restaurants_for_dish_recovers_witness:
  "scrape_restaurants_for_dish (sample_web\<lparr>googlesearch_installed := False\<rparr>) ''Paris'' ''Crepe'' = []
   \<and> scrape_restaurants_for_dish (sample_web\<lparr>search := (\<lambda>q. ([], True))\<rparr>) ''Paris'' ''Crepe'' = []
   \<and> scrape_restaurants_for_dish (sample_web\<lparr>search := (\<lambda>q. ([''u1'', ''u0''], False))\<rparr>)
        ''Paris'' ''Crepe'' = []
   \<and> scrape_restaurants_for_dish sample_web ''Paris'' ''Crepe'' = [replicate 2000 (CHR ''a'')]
   \<and> list_all (\<lambda>s. 200 < length s \<and> length s \<le> 2000)
        (scrape_restaurants_for_dish sample_web ''Paris'' ''Crepe'')"
proof -
  have a: "scrape_restaurants_for_dish (sample_web\<lparr>googlesearch_installed := False\<rparr>)
             ''Paris'' ''Crepe'' = []"
    using scrape_restaurants_for_dish_recovers
      [of "sample_web\<lparr>googlesearch_installed := False\<rparr>" "''Paris''" "''Crepe''", THEN conjunct1]
    by (simp add: sample_web_def)
  have b: "scrape_restaurants_for_dish (sample_web\<lparr>search := (\<lambda>q. ([], True))\<rparr>)
             ''Paris'' ''Crepe'' = []"
    using scrape_restaurants_for_dish_recovers
      [of "sample_web\<lparr>search := (\<lambda>q. ([], True))\<rparr>" "''Paris''" "''Crepe''",
       THEN conjunct2, THEN conjunct2, THEN conjunct1]
    by (simp add: sample_web_def)
  have c: "scrape_restaurants_for_dish (sample_web\<lparr>search := (\<lambda>q. ([''u1'', ''u0''], False))\<rparr>)
             ''Paris'' ''Crepe'' = []"
    using scrape_restaurants_for_dish_recovers
      [of "sample_web\<lparr>search := (\<lambda>q. ([''u1'', ''u0''], False))\<rparr>" "''Paris''" "''Crepe''",
       THEN conjunct2, THEN conjunct2, THEN conjunct2, THEN conjunct1]
    by (simp add: sample_web_def)
  have s2: "py_strip ''  closed  '' = ''closed''"
    by (simp add: py_strip_def py_isspace_def)
  have s3: "py_strip ('' '' @ replicate 2500 (CHR ''a'') @ '' '') = replicate 2500 (CHR ''a'')"
    by (rule py_strip_padded) (simp_all add: py_isspace_def)
  have i: "googlesearch_installed sample_web
           \<and> search sample_web (''best restaurants in '' @ ''Paris'' @ '' serving '' @ ''Crepe'')
               = ([''u1'', ''u2'', ''u3''], True)"
    by (simp add: sample_web_def)
  have "scrape_restaurants_for_dish sample_web ''Paris'' ''Crepe'' =
          map (take 2000)
            (filter (\<lambda>c. 200 < length c)
               (map py_strip (List.map_filter (page_text sample_web) [''u1'', ''u2'', ''u3''])))"
    using i
    by (rule scrape_restaurants_for_dish_recovers
          [of sample_web "''Paris''" "''Crepe''", THEN conjunct2, THEN conjunct1,
           THEN spec, THEN spec, THEN mp])
  then have d: "scrape_restaurants_for_dish sample_web ''Paris'' ''Crepe''
                  = [replicate 2000 (CHR ''a'')]"
    using s2 s3 by (simp add: sample_web_def map_filter_simps)
  have e: "list_all (\<lambda>s. 200 < length s \<and> length s \<le> 2000)
             (scrape_restaurants_for_dish sample_web ''Paris'' ''Crepe'')"
    by (rule scrape_restaurants_for_dish_recovers
          [of sample_web "''Paris''" "''Crepe''",
           THEN conjunct2, THEN conjunct2, THEN conjunct2, THEN conjunct2])
  from a b c d e show ?thesis by (intro conjI)
qed

lemma cached_entry_stored:
  "get_coordinates_cached g city cache = (v, cache1, n) \<Longrightarrow> cache1 city = Some v"
  by (auto simp: get_coordinates_cached_def Let_def split: option.splits)

lemma cached_entry_kept:
  "cache city = Some v \<Longrightarrow> fst (snd (get_coordinates_cached g x cache)) city = Some v"
  by (auto simp: get_coordinates_cached_def Let_def split: option.splits)

lemma cached_calls_kept:
  "cache city = Some v \<Longrightarrow> cached_calls calls cache city = Some v"
proof (induction calls arbitrary: cache)
  case Nil
  then show ?case by simp
next
  case (Cons a calls)
  obtain g x where a: "a = (g, x)" by (cases a)
  have "fst (snd (get_coordinates_cached g x cache)) city = Some v"
    using Cons.prems by (rule cached_entry_kept)
  then have "cached_calls calls (fst (snd (get_coordinates_cached g x cache))) city = Some v"
    by (rule Cons.IH)
  then show ?case using a by simp
qed

text \<open>
  C10: once a call of \<^verbatim>\<open>get_coordinates_cached\<close> for a city has returned \<open>v\<close> and left the
  cache \<open>cache1\<close>, then after any further calls (for any cities, whatever the geocoder
  answers by then) a call for the same city returns \<open>v\<close> again, leaves the cache as it is
  and issues no request. When the first call missed the cache and its request failed,
  \<open>v\<close> is the pair of \<^verbatim>\<open>None\<close>: the failure is what later calls get.
\<close>

theorem get_coordinates_cached_stable:
  assumes "get_coordinates_cached g city cache = (v, cache1, n)"
  shows "get_coordinates_cached g' city (cached_calls calls cache1)
           = (v, cached_calls calls cache1, 0)
         \<and> (cache city = None \<and> g city = None \<longrightarrow> v = PTuple [PNone, PNone] \<and> n = 1)"
proof -
  have "cache1 city = Some v" using assms by (rule cached_entry_stored)
  then have "cached_calls calls cache1 city = Some v" by (rule cached_calls_kept)
  then have a: "get_coordinates_cached g' city (cached_calls calls cache1)
                  = (v, cached_calls calls cache1, 0)"
    by (simp add: get_coordinates_cached_def)
  have b: "cache city = None \<and> g city = None \<longrightarrow> v = PTuple [PNone, PNone] \<and> n = 1"
    using assms by (auto simp: get_coordinates_cached_def get_coordinates_def Let_def)
  from a b show ?thesis by blast
qed

text \<open>
  A lookup of Paris that fails is stored; after a call for Lyon, a second lookup of Paris
  returns the failure without a request, although the geocoder would now answer.
\<close>

theorem get_coordinates_cached_stable_witness:
  "get_coordinates_cached (\<lambda>c. None) ''Paris'' Map.empty
     = (PTuple [PNone, PNone], [''Paris'' \<mapsto> PTuple [PNone, PNone]], 1)
   \<and> fst (get_coordinates_cached paris_geo ''Paris''
        (cached_calls [(paris_geo, ''Lyon'')] [''Paris'' \<mapsto> PTuple [PNone, PNone]]))
       = PTuple [PNone, PNone]
   \<and> snd (snd (get_coordinates_cached paris_geo ''Paris''
        (cached_calls [(paris_geo, ''Lyon'')] [''Paris'' \<mapsto> PTuple [PNone, PNone]]))) = 0"
proof -
  have h: "get_coordinates_cached (\<lambda>c. None) ''Paris'' Map.empty
             = (PTuple [PNone, PNone], [''Paris'' \<mapsto> PTuple [PNone, PNone]], 1)"
    by (simp add: get_coordinates_cached_def get_coordinates_def Let_def)
  from get_coordinates_cached_stable [OF h, of paris_geo "[(paris_geo, ''Lyon'')]"] h
  show ?thesis by simp
qed

section \<open>Properties of the polling loop\<close>

lemma rounds_Suc: "rounds (Suc k) = [ExecutionsGet, Sleep 2] @ rounds k"
  by (simp add: rounds_def)

lemma poll_spec:
  assumes "poll svc d i tr = Some y"
  shows "\<exists>k\<ge>i. (\<forall>j. i \<le> j \<and> j < k \<longrightarrow> running svc j \<and> time_time svc (Suc j) \<le> d)
                \<and> poll_post svc d i tr k y"
proof (rule poll.raw_induct[where P = "\<lambda>svc d i tr y. \<exists>k\<ge>i. (\<forall>j. i \<le> j \<and> j < k \<longrightarrow> running svc j \<and> time_time svc (Suc j) \<le> d)
                \<and> poll_post svc d i tr k y", OF _ assms])
  fix f :: "service \<Rightarrow> real \<Rightarrow> nat \<Rightarrow> event list \<Rightarrow> (poll_outcome \<times> event list) option"
  fix svc d i tr y
  assume IH: "\<And>svc d i tr y. f svc d i tr = Some y \<Longrightarrow>
     \<exists>k\<ge>i. (\<forall>j. i \<le> j \<and> j < k \<longrightarrow> running svc j \<and> time_time svc (Suc j) \<le> d)
                \<and> poll_post svc d i tr k y"
  assume step: "(case executions_get svc i of
        GetRaises \<Rightarrow> Some (Raised, tr @ [ExecutionsGet])
      | GetReturns status out \<Rightarrow>
          if status \<in> set [''succeeded'', ''failed'']
          then Some (Terminal status out, tr @ [ExecutionsGet])
          else if time_time svc (Suc i) > d
          then Some (TimedOut, tr @ [ExecutionsGet, Sleep 2])
          else f svc d (Suc i) (tr @ [ExecutionsGet, Sleep 2])) = Some y"
  show "\<exists>k\<ge>i. (\<forall>j. i \<le> j \<and> j < k \<longrightarrow> running svc j \<and> time_time svc (Suc j) \<le> d)
                \<and> poll_post svc d i tr k y"
  proof (cases "executions_get svc i")
    case GetRaises
    with step have "y = (Raised, tr @ [ExecutionsGet])" by simp
    then have "poll_post svc d i tr i y" using GetRaises by (simp add: rounds_def)
    then show ?thesis by (intro exI[of _ i]) auto
  next
    case (GetReturns status out)
    show ?thesis
    proof (cases "status \<in> set [''succeeded'', ''failed'']")
      case True
      with step GetReturns have "y = (Terminal status out, tr @ [ExecutionsGet])" by simp
      then have "poll_post svc d i tr i y" using GetReturns True by (simp add: rounds_def)
      then show ?thesis by (intro exI[of _ i]) auto
    next
      case nterm: False
      then have run: "running svc i" using GetReturns by (simp add: running_def)
      show ?thesis
      proof (cases "time_time svc (Suc i) > d")
        case True
        with step GetReturns nterm have "y = (TimedOut, tr @ [ExecutionsGet, Sleep 2])" by simp
        then have "poll_post svc d i tr i y" using run True by (simp add: rounds_def)
        then show ?thesis by (intro exI[of _ i]) auto
      next
        case False
        with step GetReturns nterm have "f svc d (Suc i) (tr @ [ExecutionsGet, Sleep 2]) = Some y" by simp
        from IH[OF this] obtain k where k: "Suc i \<le> k"
          and before: "\<forall>j. Suc i \<le> j \<and> j < k \<longrightarrow> running svc j \<and> time_time svc (Suc j) \<le> d"
          and post: "poll_post svc d (Suc i) (tr @ [ExecutionsGet, Sleep 2]) k y" by blast
        have a: "\<forall>j. i \<le> j \<and> j < k \<longrightarrow> running svc j \<and> time_time svc (Suc j) \<le> d"
        proof (intro allI impI)
          fix j assume j: "i \<le> j \<and> j < k"
          show "running svc j \<and> time_time svc (Suc j) \<le> d"
          proof (cases "j = i")
            case True
            then show ?thesis using run False by simp
          next
            case False
            then have "Suc i \<le> j \<and> j < k" using j by simp
            then show ?thesis using before by blast
          qed
        qed
        have e1: "k - i = Suc (k - Suc i)" using k by simp
        have e2: "Suc k - i = Suc (Suc k - Suc i)" using k by simp
        have b: "poll_post svc d i tr k y"
          using post by (cases y, cases "fst y") (simp_all add: e1 e2 rounds_Suc del: Suc_diff_Suc diff_Suc_Suc)
        from k a b show ?thesis by (intro exI[of _ k]) auto
      qed
    qed
  qed
qed


lemma poll_returns_within:
  assumes clock: "\<forall>j. time_time svc j + 2 \<le> time_time svc (Suc j)"
  shows "d < time_time svc (Suc i) + 2 * real k \<Longrightarrow> \<exists>y. poll svc d i tr = Some y"
proof (induction k arbitrary: i tr)
  case 0
  then show ?case
    by (subst poll.simps) (simp split: get_result.split)
next
  case (Suc k)
  have "time_time svc (Suc i) + 2 \<le> time_time svc (Suc (Suc i))"
    using clock by blast
  then have "d < time_time svc (Suc (Suc i)) + 2 * real k"
    using Suc.prems by simp
  then have "\<exists>y. poll svc d (Suc i) (tr @ [ExecutionsGet, Sleep 2]) = Some y"
    by (rule Suc.IH)
  then show ?case
    by (subst poll.simps) (simp split: get_result.split)
qed

lemma poll_returns:
  assumes clock: "\<forall>j. time_time svc j + 2 \<le> time_time svc (Suc j)"
  shows "\<exists>y. poll svc d i tr = Some y"
proof -
  obtain k :: nat where "d - time_time svc (Suc i) < real k"
    using reals_Archimedean2 by blast
  then have "d < time_time svc (Suc i) + 2 * real k" by simp
  then show ?thesis by (rule poll_returns_within [OF clock])
qed

lemma run_execution_returns:
  assumes clock: "\<forall>j. time_time svc j + 2 \<le> time_time svc (Suc j)"
  shows "\<exists>outcome tr. run_execution svc p secs = Some (outcome, tr)"
  using poll_returns [OF clock, of "time_time svc 0 + secs" 0 "[TasksCreate p, ExecutionsCreate]"]
  by (auto simp: run_execution_def)

lemma count_rounds: "count_list (rounds k) ExecutionsCreate = 0"
  by (induction k) (simp_all add: rounds_def)

lemma run_execution_spec:
  assumes "run_execution svc p secs = Some (outcome, tr)"
  shows "(\<not> tasks_create svc \<longrightarrow> outcome = Raised \<and> tr = [TasksCreate p])
       \<and> (tasks_create svc \<and> \<not> executions_create svc \<longrightarrow>
            outcome = Raised \<and> tr = [TasksCreate p, ExecutionsCreate])
       \<and> (tasks_create svc \<and> executions_create svc \<longrightarrow>
            (\<exists>k. (\<forall>j<k. running svc j \<and> time_time svc (Suc j) \<le> time_time svc 0 + secs)
                 \<and> poll_post svc (time_time svc 0 + secs) 0 [TasksCreate p, ExecutionsCreate] k
                      (outcome, tr)))"
proof (cases "tasks_create svc \<and> executions_create svc")
  case True
  then have "poll svc (time_time svc 0 + secs) 0 [TasksCreate p, ExecutionsCreate] = Some (outcome, tr)"
    using assms by (simp add: run_execution_def)
  from poll_spec [OF this] show ?thesis using True by auto
next
  case False
  then show ?thesis using assms by (auto simp: run_execution_def split: if_splits)
qed

lemma run_execution_one_creation:
  assumes "run_execution svc p secs = Some (outcome, tr)"
  shows "count_list tr ExecutionsCreate \<le> 1"
proof (cases "tasks_create svc \<and> executions_create svc")
  case True
  with run_execution_spec [OF assms] obtain k where
    "poll_post svc (time_time svc 0 + secs) 0 [TasksCreate p, ExecutionsCreate] k (outcome, tr)"
    by blast
  then show ?thesis by (cases outcome) (simp_all add: count_rounds)
next
  case False
  then show ?thesis using run_execution_spec [OF assms] by auto
qed


text \<open>
  C9: when every sleep of two seconds moves the clock on by at least two seconds, the
  polling loop returns for every sequence of answers of the service and every
  deadline. The execution is created at most once. When both creations succeeded there
  is a last call \<open>k\<close> of \<^verbatim>\<open>executions.get\<close>: every call before it answered a status that
  is neither succeeded nor failed and was followed by a clock reading within the
  deadline; call \<open>k\<close> raised, or answered succeeded or failed (and the loop stopped
  there), or was followed by the first reading past the deadline; between two calls
  lies one sleep of two seconds. \<^verbatim>\<open>generate_foodie_tour\<close> returns the value of such a run
  with a deadline of 60 seconds and \<^verbatim>\<open>extract_dishes_from_text\<close> of one with 30 seconds;
  a run that timed out gives null and the fallback list.
\<close>

theorem polling_loop_terminates:
  assumes clock: "\<forall>j. time_time svc j + 2 \<le> time_time svc (Suc j)"
  shows "(\<exists>outcome tr. run_execution svc p secs = Some (outcome, tr)
            \<and> count_list tr ExecutionsCreate \<le> 1
            \<and> (tasks_create svc \<and> executions_create svc \<longrightarrow>
                 (\<exists>k. (\<forall>j<k. running svc j \<and> time_time svc (Suc j) \<le> time_time svc 0 + secs)
                      \<and> poll_post svc (time_time svc 0 + secs) 0
                           [TasksCreate p, ExecutionsCreate] k (outcome, tr))))
       \<and> (\<exists>outcome tr.
             run_execution svc
               (TourPrompt city w (dining_type w) (restaurant_context_main ds rs)) 60
               = Some (outcome, tr)
             \<and> generate_foodie_tour loads svc city w ds rs
                 = Some (tour_of_outcome loads outcome, tr))
       \<and> (\<exists>outcome tr.
             run_execution svc (DishPrompt city (take 3000 t)) 30 = Some (outcome, tr)
             \<and> extract_dishes_from_text_main loads svc city (Some t)
                 = Some (Inr (dishes_of_outcome loads outcome), tr))
       \<and> tour_of_outcome loads TimedOut = PNone
       \<and> dishes_of_outcome loads TimedOut =
           [PStr ''Traditional Dish 1'', PStr ''Traditional Dish 2'', PStr ''Traditional Dish 3'']"
proof -
  obtain outcome tr where r: "run_execution svc p secs = Some (outcome, tr)"
    using run_execution_returns [OF clock] by blast
  have a: "\<exists>outcome tr. run_execution svc p secs = Some (outcome, tr)
            \<and> count_list tr ExecutionsCreate \<le> 1
            \<and> (tasks_create svc \<and> executions_create svc \<longrightarrow>
                 (\<exists>k. (\<forall>j<k. running svc j \<and> time_time svc (Suc j) \<le> time_time svc 0 + secs)
                      \<and> poll_post svc (time_time svc 0 + secs) 0
                           [TasksCreate p, ExecutionsCreate] k (outcome, tr)))"
    using r run_execution_one_creation [OF r] run_execution_spec [OF r] by blast
  obtain o1 t1 where r1: "run_execution svc
               (TourPrompt city w (dining_type w) (restaurant_context_main ds rs)) 60
               = Some (o1, t1)"
    using run_execution_returns [OF clock] by blast
  then have b: "generate_foodie_tour loads svc city w ds rs = Some (tour_of_outcome loads o1, t1)"
    by (simp add: generate_foodie_tour_def)
  obtain o2 t2 where r2: "run_execution svc (DishPrompt city (take 3000 t)) 30 = Some (o2, t2)"
    using run_execution_returns [OF clock] by blast
  then have c: "extract_dishes_from_text_main loads svc city (Some t)
                 = Some (Inr (dishes_of_outcome loads o2), t2)"
    by (simp add: extract_dishes_from_text_main_def)
  have d: "tour_of_outcome loads TimedOut = PNone" by simp
  have e: "dishes_of_outcome loads TimedOut =
           [PStr ''Traditional Dish 1'', PStr ''Traditional Dish 2'', PStr ''Traditional Dish 3'']"
    by (simp add: fallback_dishes_def)
  from a r1 b r2 c d e show ?thesis by blast
qed

text \<open>
  A service that never finishes, with 40 seconds between clock readings: the tour gives
  up after the second reading (80 > 60), the dish extraction after the first (40 > 30).
\<close>

theorem polling_loop_terminates_witness:
  "(\<forall>j. time_time (answering ''running'' [] 40) j + 2
          \<le> time_time (answering ''running'' [] 40) (Suc j))
   \<and> generate_foodie_tour (loads_table []) (answering ''running'' [] 40) ''Paris''
        default_weather [''Crepe''] [[]]
      = Some (PNone,
          [TasksCreate (TourPrompt ''Paris'' default_weather ''indoor'' (CHR 0x0A # ''Crepe: '')),
           ExecutionsCreate, ExecutionsGet, Sleep 2, ExecutionsGet, Sleep 2])
   \<and> extract_dishes_from_text_main (loads_table []) (answering ''running'' [] 40) ''Paris''
        (Some ''crepes are famous'')
      = Some (Inr [PStr ''Traditional Dish 1'', PStr ''Traditional Dish 2'',
                   PStr ''Traditional Dish 3''],
          [TasksCreate (DishPrompt ''Paris'' ''crepes are famous''),
           ExecutionsCreate, ExecutionsGet, Sleep 2])"
proof -
  have h: "\<forall>j. time_time (answering ''running'' [] 40) j + 2
          \<le> time_time (answering ''running'' [] 40) (Suc j)"
    by (simp add: answering_def)
  have p0: "\<And>d tr. poll (answering ''running'' [] 40) d 0 tr =
      (if 40 > d then Some (TimedOut, tr @ [ExecutionsGet, Sleep 2])
       else poll (answering ''running'' [] 40) d 1 (tr @ [ExecutionsGet, Sleep 2]))"
    by (subst poll.simps) (simp add: answering_def)
  have p1: "\<And>d tr. poll (answering ''running'' [] 40) d (Suc 0) tr =
      (if 80 > d then Some (TimedOut, tr @ [ExecutionsGet, Sleep 2])
       else poll (answering ''running'' [] 40) d (Suc (Suc 0)) (tr @ [ExecutionsGet, Sleep 2]))"
    by (subst poll.simps) (simp add: answering_def)
  have t0: "time_time (answering ''running'' [] 40) 0 = 0"
    and c1: "tasks_create (answering ''running'' [] 40)"
    and c2: "executions_create (answering ''running'' [] 40)"
    by (simp_all add: answering_def)
  have g: "generate_foodie_tour (loads_table []) (answering ''running'' [] 40) ''Paris''
        default_weather [''Crepe''] [[]]
      = Some (PNone,
          [TasksCreate (TourPrompt ''Paris'' default_weather ''indoor'' (CHR 0x0A # ''Crepe: '')),
           ExecutionsCreate, ExecutionsGet, Sleep 2, ExecutionsGet, Sleep 2])"
    by (simp add: generate_foodie_tour_def run_execution_def t0 c1 c2 p0 p1
        restaurant_context_main_def dining_type_def default_weather_def)
  have x: "extract_dishes_from_text_main (loads_table []) (answering ''running'' [] 40) ''Paris''
        (Some ''crepes are famous'')
      = Some (Inr [PStr ''Traditional Dish 1'', PStr ''Traditional Dish 2'',
                   PStr ''Traditional Dish 3''],
          [TasksCreate (DishPrompt ''Paris'' ''crepes are famous''),
           ExecutionsCreate, ExecutionsGet, Sleep 2])"
    by (simp add: extract_dishes_from_text_main_def run_execution_def t0 c1 c2 p0
        fallback_dishes_def)
  from polling_loop_terminates [OF h, of "DishPrompt ''Paris'' []" 30 "''Paris''"] h g x
  show ?thesis by blast
qed

section \<open>Properties of the prompt and of the dish extraction\<close>

lemma foldl_lines:
  "foldl (\<lambda>ctx (dish, restaurants). ctx @ h dish restaurants) acc xs
     = acc @ concat (map (\<lambda>(dish, restaurants). h dish restaurants) xs)"
  by (induction xs arbitrary: acc) auto

text \<open>
  C7 (as amended): the restaurant context has one line per pair of a dish and its
  snippets. In final-ui.py the line holds the dish's first two snippets joined with
  \<^verbatim>\<open>"; "\<close>, and the phrase \<^verbatim>\<open>Popular local restaurants\<close> when the dish has no snippet. In
  main.py the line holds the first three snippets joined with \<^verbatim>\<open>"; "\<close>, and nothing
  after the colon when the dish has no snippet.
\<close>

theorem restaurant_context_lines:
  "restaurant_context_ui dishes infos =
     concat (map (\<lambda>(dish, restaurants).
                    [CHR 0x0A] @ dish @ '': '' @
                    (if restaurants = [] then ''Popular local restaurants''
                     else py_join ''; '' (take 2 restaurants)))
             (zip dishes infos))
   \<and> restaurant_context_main dishes infos =
     concat (map (\<lambda>(dish, restaurants).
                    [CHR 0x0A] @ dish @ '': '' @ py_join ''; '' (take 3 restaurants))
             (zip dishes infos))"
proof -
  have ui: "(\<lambda>ctx (dish, restaurants).
              if restaurants \<noteq> []
              then ctx @ [CHR 0x0A] @ dish @ '': '' @ py_join ''; '' (take 2 restaurants)
              else ctx @ [CHR 0x0A] @ dish @ '': Popular local restaurants'')
        = (\<lambda>ctx (dish, restaurants). ctx @ ([CHR 0x0A] @ dish @ '': '' @
                    (if restaurants = [] then ''Popular local restaurants''
                     else py_join ''; '' (take 2 restaurants))))"
    by (intro ext) (simp split: prod.split)
  have a: "restaurant_context_ui dishes infos =
     concat (map (\<lambda>(dish, restaurants).
                    [CHR 0x0A] @ dish @ '': '' @
                    (if restaurants = [] then ''Popular local restaurants''
                     else py_join ''; '' (take 2 restaurants)))
             (zip dishes infos))"
    unfolding restaurant_context_ui_def ui by (simp only: foldl_lines append_Nil)
  have b: "restaurant_context_main dishes infos =
     concat (map (\<lambda>(dish, restaurants).
                    [CHR 0x0A] @ dish @ '': '' @ py_join ''; '' (take 3 restaurants))
             (zip dishes infos))"
    unfolding restaurant_context_main_def
    using foldl_lines [of "\<lambda>dish restaurants. [CHR 0x0A] @ dish @ '': '' @ py_join ''; '' (take 3 restaurants)" "[]" "zip dishes infos"]
    by simp
  from a b show ?thesis by blast
qed

text \<open>
  C7 as stated fails on main.py: for a dish without snippets \<^verbatim>\<open>generate_foodie_tour\<close>
  writes no phrase.
\<close>

theorem restaurant_context_main_empty:
  "restaurant_context_main [''Pho'', ''Bun cha''] [[], [''a'', ''b'', ''c'', ''d'']]
     = CHR 0x0A # ''Pho: '' @ CHR 0x0A # ''Bun cha: a; b; c''
   \<and> restaurant_context_ui [''Pho'', ''Bun cha''] [[], [''a'', ''b'', ''c'', ''d'']]
     = CHR 0x0A # ''Pho: Popular local restaurants'' @ CHR 0x0A # ''Bun cha: a; b''"
  by (simp add: restaurant_context_main_def restaurant_context_ui_def)

lemma dishes_scan_length: "length (dishes_scan loads items) = 3"
proof (induction items)
  case Nil
  show ?case by (simp add: fallback_dishes_def)
next
  case (Cons item items)
  show ?case
  proof (cases "assistant_text item")
    case None
    then show ?thesis using Cons by simp
  next
    case (Some c)
    show ?thesis
    proof (cases "loads (fence_stripped c)")
      case None
      then show ?thesis using Some Cons by simp
    next
      case (Some v)
      then show ?thesis using \<open>assistant_text item = Some c\<close> Cons
        by (cases v) simp_all
    qed
  qed
qed

lemma dishes_of_outcome_length: "length (dishes_of_outcome loads outcome) = 3"
  by (cases outcome) (simp_all add: dishes_scan_length fallback_dishes_def)

lemma poll_answering_terminal:
  "status \<in> set [''succeeded'', ''failed''] \<Longrightarrow>
   poll (answering status out step) d 0 tr = Some (Terminal status out, tr @ [ExecutionsGet])"
  by (subst poll.simps) (simp add: answering_def)

lemma run_answering_terminal:
  "status \<in> set [''succeeded'', ''failed''] \<Longrightarrow>
   run_execution (answering status out step) p secs
     = Some (Terminal status out, [TasksCreate p, ExecutionsCreate, ExecutionsGet])"
  using poll_answering_terminal [of status out step "secs" "[TasksCreate p, ExecutionsCreate]"]
  by (simp add: run_execution_def answering_def)

text \<open>
  C3 (as amended): for the null text and for the empty text,
  \<^verbatim>\<open>extract_dishes_from_text\<close> of final-ui.py returns the fallback list at once, with no
  call of the service. In main.py the test is in \<^verbatim>\<open>run_workflow\<close>, which takes the
  fallback list without calling the extractor.
\<close>

theorem extract_dishes_empty_text:
  "extract_dishes_from_text_ui loads svc city None
     = Some ([PStr ''Traditional Dish 1'', PStr ''Traditional Dish 2'', PStr ''Traditional Dish 3''], [])
   \<and> extract_dishes_from_text_ui loads svc city (Some [])
     = Some ([PStr ''Traditional Dish 1'', PStr ''Traditional Dish 2'', PStr ''Traditional Dish 3''], [])
   \<and> run_workflow_dishes loads svc city None
     = Some (Inr [PStr ''Traditional Dish 1'', PStr ''Traditional Dish 2'', PStr ''Traditional Dish 3''], [])
   \<and> run_workflow_dishes loads svc city (Some [])
     = Some (Inr [PStr ''Traditional Dish 1'', PStr ''Traditional Dish 2'', PStr ''Traditional Dish 3''], [])"
  by (simp add: extract_dishes_from_text_ui_def run_workflow_dishes_def fallback_dishes_def)

lemma strip_plain: \<open>fence_stripped ''["Pho", "Banh mi", "Bun cha"]'' = ''["Pho", "Banh mi", "Bun cha"]''\<close>
  by (simp add: fence_stripped_def py_strip_def py_isspace_def)

text \<open>
  C3 as stated fails on \<^verbatim>\<open>extract_dishes_from_text\<close> of main.py: the null text raises
  \<^verbatim>\<open>TypeError\<close>, and the empty text is sent to the service, whose answer is returned.
\<close>

theorem extract_dishes_main_unguarded:
  \<open>extract_dishes_from_text_main
      (loads_table [(''["Pho", "Banh mi", "Bun cha"]'',
                     PList [PStr ''Pho'', PStr ''Banh mi'', PStr ''Bun cha''])])
      (answering ''succeeded'' [assistant_says ''["Pho", "Banh mi", "Bun cha"]''] 2)
      ''Hanoi'' None
     = Some (Inl TypeError, [])
   \<and> extract_dishes_from_text_main
      (loads_table [(''["Pho", "Banh mi", "Bun cha"]'',
                     PList [PStr ''Pho'', PStr ''Banh mi'', PStr ''Bun cha''])])
      (answering ''succeeded'' [assistant_says ''["Pho", "Banh mi", "Bun cha"]''] 2)
      ''Hanoi'' (Some [])
     = Some (Inr [PStr ''Pho'', PStr ''Banh mi'', PStr ''Bun cha''],
             [TasksCreate (DishPrompt ''Hanoi'' []), ExecutionsCreate, ExecutionsGet])\<close>
  by (simp add: extract_dishes_from_text_main_def run_answering_terminal strip_plain
      assistant_text_def assistant_says_def loads_table_def)

text \<open>
  C4 as stated fails on \<^verbatim>\<open>extract_dishes_from_text\<close> of main.py at the null text: no
  list is returned.
\<close>

theorem extract_dishes_main_null_text:
  "\<not> (\<exists>ds tr. extract_dishes_from_text_main (loads_table []) (answering ''failed'' [] 2)
                  ''Hanoi'' None = Some (Inr ds, tr) \<and> length ds = 3)"
  by (simp add: extract_dishes_from_text_main_def)

text \<open>
  C4 (as amended): when the clock moves on with every sleep, then for every outcome of
  the service \<^verbatim>\<open>extract_dishes_from_text\<close> of final-ui.py returns a list of exactly 3
  elements for every text, the null text included; \<^verbatim>\<open>extract_dishes_from_text\<close> of
  main.py does so for every text that is not null; and the dish step of \<^verbatim>\<open>run_workflow\<close>,
  which is all that calls it, does so for every text. The elements are the first three
  values of the parsed array or the fallback names.
\<close>

theorem extract_dishes_three:
  assumes clock: "\<forall>j. time_time svc j + 2 \<le> time_time svc (Suc j)"
  shows "(\<exists>ds tr. extract_dishes_from_text_ui loads svc city dish_text = Some (ds, tr)
                  \<and> length ds = 3)
       \<and> (\<exists>ds tr. extract_dishes_from_text_main loads svc city (Some t) = Some (Inr ds, tr)
                  \<and> length ds = 3)
       \<and> (\<exists>ds tr. run_workflow_dishes loads svc city dish_text = Some (Inr ds, tr)
                  \<and> length ds = 3)"
proof -
  have m: "\<exists>ds tr. extract_dishes_from_text_main loads svc city (Some u) = Some (Inr ds, tr)
                  \<and> length ds = 3" for u
  proof -
    obtain outcome tr where "run_execution svc (DishPrompt city (take 3000 u)) 30 = Some (outcome, tr)"
      using run_execution_returns [OF clock] by blast
    then have "extract_dishes_from_text_main loads svc city (Some u)
                 = Some (Inr (dishes_of_outcome loads outcome), tr)"
      by (simp add: extract_dishes_from_text_main_def)
    then show ?thesis using dishes_of_outcome_length by blast
  qed
  have u: "\<exists>ds tr. extract_dishes_from_text_ui loads svc city dish_text = Some (ds, tr)
                  \<and> length ds = 3"
  proof (cases "dish_text = None \<or> dish_text = Some []")
    case True
    then show ?thesis
      by (auto simp: extract_dishes_from_text_ui_def fallback_dishes_def)
  next
    case False
    then obtain u where u: "dish_text = Some u" "u \<noteq> []" by (cases dish_text) auto
    obtain outcome tr where "run_execution svc (DishPrompt city (take 2000 u)) 30 = Some (outcome, tr)"
      using run_execution_returns [OF clock] by blast
    then have "extract_dishes_from_text_ui loads svc city dish_text
                 = Some (dishes_of_outcome loads outcome, tr)"
      using u by (simp add: extract_dishes_from_text_ui_def)
    then show ?thesis using dishes_of_outcome_length by blast
  qed
  have w: "\<exists>ds tr. run_workflow_dishes loads svc city dish_text = Some (Inr ds, tr)
                  \<and> length ds = 3"
  proof (cases "dish_text = None \<or> dish_text = Some []")
    case True
    then show ?thesis by (auto simp: run_workflow_dishes_def fallback_dishes_def)
  next
    case False
    then obtain u where u: "dish_text = Some u" by (cases dish_text) auto
    then show ?thesis using m [of u] False by (simp add: run_workflow_dishes_def)
  qed
  from u m [of t] w show ?thesis by blast
qed

text \<open>A service that answers an array of four names: the first three are returned.\<close>

theorem extract_dishes_three_witness:
  \<open>(\<forall>j. time_time (answering ''succeeded'' [assistant_says ''["Pho", "Banh mi", "Bun cha", "Com"]''] 2) j + 2
         \<le> time_time (answering ''succeeded'' [assistant_says ''["Pho", "Banh mi", "Bun cha", "Com"]''] 2) (Suc j))
   \<and> extract_dishes_from_text_ui
        (loads_table [(''["Pho", "Banh mi", "Bun cha", "Com"]'',
                       PList [PStr ''Pho'', PStr ''Banh mi'', PStr ''Bun cha'', PStr ''Com''])])
        (answering ''succeeded'' [assistant_says ''["Pho", "Banh mi", "Bun cha", "Com"]''] 2)
        ''Hanoi'' (Some ''pho and more'')
      = Some ([PStr ''Pho'', PStr ''Banh mi'', PStr ''Bun cha''],
              [TasksCreate (DishPrompt ''Hanoi'' ''pho and more''), ExecutionsCreate, ExecutionsGet])
   \<and> (\<exists>ds tr. extract_dishes_from_text_main
        (loads_table [(''["Pho", "Banh mi", "Bun cha", "Com"]'',
                       PList [PStr ''Pho'', PStr ''Banh mi'', PStr ''Bun cha'', PStr ''Com''])])
        (answering ''succeeded'' [assistant_says ''["Pho", "Banh mi", "Bun cha", "Com"]''] 2)
        ''Hanoi'' (Some ''pho and more'') = Some (Inr ds, tr) \<and> length ds = 3)\<close>
proof -
  let ?svc = \<open>answering ''succeeded'' [assistant_says ''["Pho", "Banh mi", "Bun cha", "Com"]''] 2\<close>
  let ?loads = \<open>loads_table [(''["Pho", "Banh mi", "Bun cha", "Com"]'',
                       PList [PStr ''Pho'', PStr ''Banh mi'', PStr ''Bun cha'', PStr ''Com''])]\<close>
  have h: "\<forall>j. time_time ?svc j + 2 \<le> time_time ?svc (Suc j)"
    by (simp add: answering_def)
  have s: \<open>fence_stripped ''["Pho", "Banh mi", "Bun cha", "Com"]'' = ''["Pho", "Banh mi", "Bun cha", "Com"]''\<close>
    by (simp add: fence_stripped_def py_strip_def py_isspace_def)
  have a: "extract_dishes_from_text_ui ?loads ?svc ''Hanoi'' (Some ''pho and more'')
      = Some ([PStr ''Pho'', PStr ''Banh mi'', PStr ''Bun cha''],
              [TasksCreate (DishPrompt ''Hanoi'' ''pho and more''), ExecutionsCreate, ExecutionsGet])"
    by (simp add: extract_dishes_from_text_ui_def run_answering_terminal s
      assistant_text_def assistant_says_def loads_table_def)
  from extract_dishes_three [OF h, of ?loads "''Hanoi''" "Some ''pho and more''" "''pho and more''"] h a
  show ?thesis by blast
qed

section \<open>Properties of the tour generation\<close>

lemma find_from_absent: "c \<notin> set s \<Longrightarrow> find_from c s i = -1"
  by (induction s arbitrary: i) auto

lemma find_from_range:
  "0 \<le> i \<Longrightarrow> find_from c s i = -1 \<or> (i \<le> find_from c s i \<and> find_from c s i < i + int (length s))"
proof (induction s arbitrary: i)
  case Nil
  then show ?case by simp
next
  case (Cons x xs)
  have "0 \<le> i + 1" using Cons.prems by simp
  from Cons.IH [OF this] show ?case by auto
qed

lemma find_from_zero: "find_from c s 0 = 0 \<Longrightarrow> s \<noteq> [] \<and> hd s = c"
proof (cases s)
  case Nil
  assume "find_from c s 0 = 0"
  then show ?thesis using Nil by simp
next
  case (Cons x xs)
  assume z: "find_from c s 0 = 0"
  have "find_from c xs 1 = -1 \<or> (1 \<le> find_from c xs 1 \<and> find_from c xs 1 < 1 + int (length xs))"
    by (rule find_from_range) simp
  then have "find_from c xs 1 \<noteq> 0" by auto
  then show ?thesis using z Cons by (auto split: if_splits)
qed

lemma slice_no_close:
  "c2 \<notin> set t \<Longrightarrow> py_slice t (py_find t c1) (py_rfind t c2 + 1) = []"
  by (simp add: py_slice_def py_rfind_def find_from_absent slice_index_def Let_def)

lemma slice_no_open:
  assumes "c1 \<notin> set t"
  shows "py_slice t (py_find t c1) (py_rfind t c2 + 1) = []
       \<or> py_slice t (py_find t c1) (py_rfind t c2 + 1) = [c2]"
proof (cases "t = []")
  case True
  then show ?thesis by (simp add: py_slice_def)
next
  case False
  let ?n = "length t"
  let ?k = "find_from c2 (rev t) 0"
  have lo: "slice_index ?n (py_find t c1) = ?n - 1"
    using assms False by (simp add: py_find_def find_from_absent slice_index_def)
  have k: "?k = -1 \<or> (0 \<le> ?k \<and> ?k < int ?n)"
    using find_from_range [of 0 c2 "rev t"] by simp
  show ?thesis
  proof (cases "?k = 0")
    case True
    then have "rev t \<noteq> [] \<and> hd (rev t) = c2" by (rule find_from_zero)
    then have l: "last t = c2" using False by (simp add: hd_rev)
    have "py_rfind t c2 + 1 = int ?n" using True by (simp add: py_rfind_def)
    then have hi: "slice_index ?n (py_rfind t c2 + 1) = ?n" by (simp add: slice_index_def)
    have "drop (?n - 1) t = [last t]"
      using False by (metis append_butlast_last_id append_eq_conv_conj length_butlast)
    then have "py_slice t (py_find t c1) (py_rfind t c2 + 1) = [c2]"
      using lo hi l False by (simp add: py_slice_def Let_def)
    then show ?thesis by simp
  next
    case nz: False
    have "slice_index ?n (py_rfind t c2 + 1) \<le> ?n - 1"
      using k nz by (auto simp: py_rfind_def slice_index_def Let_def)
    then have "py_slice t (py_find t c1) (py_rfind t c2 + 1) = []"
      using lo by (simp add: py_slice_def Let_def)
    then show ?thesis by simp
  qed
qed

lemma final_json_scan_skip:
  "list_all (\<lambda>x. assistant_text x = None) xs \<Longrightarrow>
   final_json_scan loads (xs @ ys) = final_json_scan loads ys"
  by (induction xs) simp_all

lemma final_json_scan_none:
  "list_all (\<lambda>x. assistant_text x = None) xs \<Longrightarrow> final_json_scan loads xs = PNone"
  by (induction xs) simp_all

lemma extract_final_json_last:
  assumes "assistant_text m = Some t" and "list_all (\<lambda>x. assistant_text x = None) post"
  shows "extract_final_json_from_output loads (pre @ m # post) =
     (case loads (py_slice t (py_find t (CHR ''{'')) (py_rfind t (CHR ''}'') + 1)) of
        None \<Rightarrow> PNone | Some j \<Rightarrow> j)"
proof -
  have "list_all (\<lambda>x. assistant_text x = None) (rev post)" using assms(2) by simp
  then have "final_json_scan loads (rev post @ m # rev pre) = final_json_scan loads (m # rev pre)"
    by (rule final_json_scan_skip)
  then show ?thesis using assms(1) by (simp add: extract_final_json_from_output_def Let_def)
qed


lemma run_execution_terminal_status:
  assumes "run_execution svc p secs = Some (Terminal status out, tr)"
  shows "status = ''succeeded'' \<or> status = ''failed''"
proof (cases "tasks_create svc \<and> executions_create svc")
  case True
  with run_execution_spec [OF assms] obtain k where
    "poll_post svc (time_time svc 0 + secs) 0 [TasksCreate p, ExecutionsCreate] k
       (Terminal status out, tr)" by blast
  then show ?thesis by simp
next
  case False
  then show ?thesis using run_execution_spec [OF assms] by auto
qed

text \<open>
  C1 (as amended): \<^verbatim>\<open>generate_foodie_tour\<close> returns null when a call of the service raised,
  when the deadline passed, when the final status is failed (a final status is
  succeeded or failed), when no message of the output is an assistant message with
  content, and when \<^verbatim>\<open>json.loads\<close> rejects the slice from the first \<^verbatim>\<open>{\<close> to the last
  \<^verbatim>\<open>}\<close> of the last such message; for a text without \<^verbatim>\<open>{\<close> or without \<^verbatim>\<open>}\<close> that slice is
  empty or a lone \<^verbatim>\<open>}\<close>, which a JSON parser rejects. In every other case it returns
  the value \<^verbatim>\<open>json.loads\<close> gives for that slice, as it is: nothing is checked against
  the TourPlan schema.
\<close>

theorem generate_foodie_tour_result:
  assumes run: "run_execution svc
                  (TourPrompt city w (dining_type w) (restaurant_context_main ds rs)) 60
                  = Some (outcome, tr)"
  shows "\<exists>v. generate_foodie_tour loads svc city w ds rs = Some (v, tr)
     \<and> (outcome = Raised \<or> outcome = TimedOut \<longrightarrow> v = PNone)
     \<and> (\<forall>status out. outcome = Terminal status out \<longrightarrow>
          (status = ''succeeded'' \<or> status = ''failed'')
          \<and> (status = ''failed'' \<longrightarrow> v = PNone)
          \<and> (status = ''succeeded'' \<and> list_all (\<lambda>x. assistant_text x = None) out \<longrightarrow> v = PNone)
          \<and> (\<forall>pre m post t.
                status = ''succeeded'' \<and> out = pre @ m # post \<and> assistant_text m = Some t
                \<and> list_all (\<lambda>x. assistant_text x = None) post \<longrightarrow>
                v = (case loads (py_slice t (py_find t (CHR ''{'')) (py_rfind t (CHR ''}'') + 1)) of
                       None \<Rightarrow> PNone | Some j \<Rightarrow> j)
                \<and> ((CHR ''{'' \<notin> set t \<or> CHR ''}'' \<notin> set t)
                     \<and> loads [] = None \<and> loads ''}'' = None \<longrightarrow> v = PNone)))"
proof -
  let ?v = "tour_of_outcome loads outcome"
  have g: "generate_foodie_tour loads svc city w ds rs = Some (?v, tr)"
    using run by (simp add: generate_foodie_tour_def)
  have a: "outcome = Raised \<or> outcome = TimedOut \<longrightarrow> ?v = PNone" by auto
  have b: "(status = ''succeeded'' \<or> status = ''failed'')
          \<and> (status = ''failed'' \<longrightarrow> ?v = PNone)
          \<and> (status = ''succeeded'' \<and> list_all (\<lambda>x. assistant_text x = None) out \<longrightarrow> ?v = PNone)
          \<and> (\<forall>pre m post t.
                status = ''succeeded'' \<and> out = pre @ m # post \<and> assistant_text m = Some t
                \<and> list_all (\<lambda>x. assistant_text x = None) post \<longrightarrow>
                ?v = (case loads (py_slice t (py_find t (CHR ''{'')) (py_rfind t (CHR ''}'') + 1)) of
                       None \<Rightarrow> PNone | Some j \<Rightarrow> j)
                \<and> ((CHR ''{'' \<notin> set t \<or> CHR ''}'' \<notin> set t)
                     \<and> loads [] = None \<and> loads ''}'' = None \<longrightarrow> ?v = PNone))"
    if o: "outcome = Terminal status out" for status out
  proof -
    have s: "status = ''succeeded'' \<or> status = ''failed''"
      using run o by (auto dest: run_execution_terminal_status)
    have f: "status = ''failed'' \<longrightarrow> ?v = PNone" using o by simp
    have n: "status = ''succeeded'' \<and> list_all (\<lambda>x. assistant_text x = None) out \<longrightarrow> ?v = PNone"
    proof
      assume h: "status = ''succeeded'' \<and> list_all (\<lambda>x. assistant_text x = None) out"
      then have "list_all (\<lambda>x. assistant_text x = None) (rev out)" by simp
      then have "final_json_scan loads (rev out) = PNone" by (rule final_json_scan_none)
      then show "?v = PNone" using o h by (simp add: extract_final_json_from_output_def)
    qed
    have l: "?v = (case loads (py_slice t (py_find t (CHR ''{'')) (py_rfind t (CHR ''}'') + 1)) of
                       None \<Rightarrow> PNone | Some j \<Rightarrow> j)
                \<and> ((CHR ''{'' \<notin> set t \<or> CHR ''}'' \<notin> set t)
                     \<and> loads [] = None \<and> loads ''}'' = None \<longrightarrow> ?v = PNone)"
      if h: "status = ''succeeded'' \<and> out = pre @ m # post \<and> assistant_text m = Some t
                \<and> list_all (\<lambda>x. assistant_text x = None) post" for pre m post t
    proof -
      let ?s = "py_slice t (py_find t (CHR ''{'')) (py_rfind t (CHR ''}'') + 1)"
      have v: "?v = (case loads ?s of None \<Rightarrow> PNone | Some j \<Rightarrow> j)"
        using o h extract_final_json_last [of m t post loads pre] by simp
      have "?v = PNone"
        if c: "(CHR ''{'' \<notin> set t \<or> CHR ''}'' \<notin> set t) \<and> loads [] = None \<and> loads ''}'' = None"
      proof -
        have "?s = [] \<or> ?s = ''}''"
          using c slice_no_open [of "CHR ''{''" t "CHR ''}''"] slice_no_close [of "CHR ''}''" t "CHR ''{''"]
          by blast
        then have "loads ?s = None" using c by auto
        then show ?thesis using v by simp
      qed
      then show ?thesis using v by blast
    qed
    from s f n l show ?thesis by blast
  qed
  from g a b show ?thesis by blast
qed

text \<open>
  C1 as stated fails: when the assistant answers an object with the city alone,
  that partially-filled object is returned.
\<close>

theorem generate_foodie_tour_partial_object:
  \<open>generate_foodie_tour
      (loads_table [(''{"city": "Paris"}'', PDict [(''city'', PStr ''Paris'')])])
      (answering ''succeeded'' [assistant_says ''{"city": "Paris"}''] 2)
      ''Paris'' default_weather [''Crepe''] [[]]
     = Some (PDict [(''city'', PStr ''Paris'')],
             [TasksCreate (TourPrompt ''Paris'' default_weather ''indoor'' (CHR 0x0A # ''Crepe: '')),
              ExecutionsCreate, ExecutionsGet])
   \<and> PDict [(''city'', PStr ''Paris'')] \<noteq> PNone
   \<and> \<not> spec_tour_plan (PDict [(''city'', PStr ''Paris'')])\<close>
proof -
  have s: \<open>py_slice ''{"city": "Paris"}'' (py_find ''{"city": "Paris"}'' (CHR ''{''))
             (py_rfind ''{"city": "Paris"}'' (CHR ''}'') + 1) = ''{"city": "Paris"}''\<close>
    by (simp add: py_slice_def py_find_def py_rfind_def slice_index_def)
  have g: \<open>generate_foodie_tour
      (loads_table [(''{"city": "Paris"}'', PDict [(''city'', PStr ''Paris'')])])
      (answering ''succeeded'' [assistant_says ''{"city": "Paris"}''] 2)
      ''Paris'' default_weather [''Crepe''] [[]]
     = Some (PDict [(''city'', PStr ''Paris'')],
             [TasksCreate (TourPrompt ''Paris'' default_weather ''indoor'' (CHR 0x0A # ''Crepe: '')),
              ExecutionsCreate, ExecutionsGet])\<close>
    by (simp add: generate_foodie_tour_def run_answering_terminal extract_final_json_from_output_def
        assistant_text_def assistant_says_def s loads_table_def
        restaurant_context_main_def dining_type_def default_weather_def)
  have n: "\<not> spec_tour_plan (PDict [(''city'', PStr ''Paris'')])"
    by (simp add: spec_tour_plan_def)
  from g n show ?thesis by simp
qed

text \<open>
  A run that succeeded with an assistant message followed by a user message: the
  object between the braces of the assistant's text is returned.
\<close>

theorem generate_foodie_tour_result_witness:
  \<open>run_execution
      (answering ''succeeded''
         [assistant_says ''Plan: {"city": "Paris"} Enjoy!'', \<lparr>role = ''user'', content = Some ''thanks''\<rparr>] 2)
      (TourPrompt ''Paris'' default_weather (dining_type default_weather)
         (restaurant_context_main [''Crepe''] [[]])) 60
     = Some (Terminal ''succeeded''
               [assistant_says ''Plan: {"city": "Paris"} Enjoy!'', \<lparr>role = ''user'', content = Some ''thanks''\<rparr>],
             [TasksCreate (TourPrompt ''Paris'' default_weather (dining_type default_weather)
                (restaurant_context_main [''Crepe''] [[]])), ExecutionsCreate, ExecutionsGet])
   \<and> (\<exists>v. generate_foodie_tour
        (loads_table [(''{"city": "Paris"}'', PDict [(''city'', PStr ''Paris'')])])
        (answering ''succeeded''
           [assistant_says ''Plan: {"city": "Paris"} Enjoy!'', \<lparr>role = ''user'', content = Some ''thanks''\<rparr>] 2)
        ''Paris'' default_weather [''Crepe''] [[]]
       = Some (v, [TasksCreate (TourPrompt ''Paris'' default_weather (dining_type default_weather)
                (restaurant_context_main [''Crepe''] [[]])), ExecutionsCreate, ExecutionsGet])
       \<and> v = PDict [(''city'', PStr ''Paris'')])\<close>
proof -
  let ?t = \<open>''Plan: {"city": "Paris"} Enjoy!''\<close>
  let ?m = "assistant_says ?t"
  let ?u = "\<lparr>role = ''user'', content = Some ''thanks''\<rparr>"
  let ?svc = "answering ''succeeded'' [?m, ?u] 2"
  let ?p = "TourPrompt ''Paris'' default_weather (dining_type default_weather)
         (restaurant_context_main [''Crepe''] [[]])"
  let ?loads = \<open>loads_table [(''{"city": "Paris"}'', PDict [(''city'', PStr ''Paris'')])]\<close>
  have r: "run_execution ?svc ?p 60
     = Some (Terminal ''succeeded'' [?m, ?u], [TasksCreate ?p, ExecutionsCreate, ExecutionsGet])"
    by (rule run_answering_terminal) simp
  have s: \<open>py_slice ?t (py_find ?t (CHR ''{'')) (py_rfind ?t (CHR ''}'') + 1) = ''{"city": "Paris"}''\<close>
    by (simp add: py_slice_def py_find_def py_rfind_def slice_index_def)
  have m: "assistant_text ?m = Some ?t" by (simp add: assistant_text_def assistant_says_def)
  have u: "list_all (\<lambda>x. assistant_text x = None) [?u]" by (simp add: assistant_text_def)
  from generate_foodie_tour_result [OF r, of ?loads] obtain v where
    v: "generate_foodie_tour ?loads ?svc ''Paris'' default_weather [''Crepe''] [[]]
         = Some (v, [TasksCreate ?p, ExecutionsCreate, ExecutionsGet])
     \<and> (Terminal ''succeeded'' [?m, ?u] = Raised \<or> Terminal ''succeeded'' [?m, ?u] = TimedOut
          \<longrightarrow> v = PNone)
     \<and> (\<forall>status out. Terminal ''succeeded'' [?m, ?u] = Terminal status out \<longrightarrow>
          (status = ''succeeded'' \<or> status = ''failed'')
          \<and> (status = ''failed'' \<longrightarrow> v = PNone)
          \<and> (status = ''succeeded'' \<and> list_all (\<lambda>x. assistant_text x = None) out \<longrightarrow> v = PNone)
          \<and> (\<forall>pre m post t.
                status = ''succeeded'' \<and> out = pre @ m # post \<and> assistant_text m = Some t
                \<and> list_all (\<lambda>x. assistant_text x = None) post \<longrightarrow>
                v = (case ?loads (py_slice t (py_find t (CHR ''{'')) (py_rfind t (CHR ''}'') + 1)) of
                       None \<Rightarrow> PNone | Some j \<Rightarrow> j)
                \<and> ((CHR ''{'' \<notin> set t \<or> CHR ''}'' \<notin> set t)
                     \<and> ?loads [] = None \<and> ?loads ''}'' = None \<longrightarrow> v = PNone)))" ..
  from v have g: "generate_foodie_tour ?loads ?svc ''Paris'' default_weather [''Crepe''] [[]]
         = Some (v, [TasksCreate ?p, ExecutionsCreate, ExecutionsGet])" by (rule conjunct1)
  note t1 = v [THEN conjunct2, THEN conjunct2, THEN spec, THEN spec, THEN mp, OF refl]
  note t2 = t1 [THEN conjunct2, THEN conjunct2, THEN conjunct2,
                THEN spec, THEN spec, THEN spec, THEN spec, THEN mp, THEN conjunct1]
  have e: "[?m, ?u] = [] @ ?m # [?u]" by simp
  have "''succeeded'' = ''succeeded'' \<and> [?m, ?u] = [] @ ?m # [?u] \<and> assistant_text ?m = Some ?t
          \<and> list_all (\<lambda>x. assistant_text x = None) [?u]"
    using e m u by (intro conjI) (rule refl)
  then have "v = (case ?loads (py_slice ?t (py_find ?t (CHR ''{'')) (py_rfind ?t (CHR ''}'') + 1)) of
                       None \<Rightarrow> PNone | Some j \<Rightarrow> j)"
    by (rule t2)
  then have "v = PDict [(''city'', PStr ''Paris'')]" by (simp add: s loads_table_def)
  with r g show ?thesis by blast
qed

section \<open>Properties of the clean-up and parse of the dish answer\<close>

lemma py_strip_trimmed:
  assumes "s \<noteq> []" and "\<not> py_isspace (hd s)" and "\<not> py_isspace (last s)"
  shows "py_strip s = s"
proof -
  have a: "dropWhile py_isspace s = s" using assms(1,2) by (cases s) simp_all
  have "rev s \<noteq> []" and "\<not> py_isspace (hd (rev s))" using assms(1,3) by (simp_all add: hd_rev)
  then have "dropWhile py_isspace (rev s) = rev s" by (cases "rev s") simp_all
  then show ?thesis using a by (simp add: py_strip_def)
qed

lemma py_strip_between:
  assumes "a \<noteq> []" and "\<not> py_isspace (hd a)" and "\<not> py_isspace (last a)"
    and "py_isspace x" and "py_isspace y"
  shows "py_strip (x # a @ [y]) = a"
proof -
  have "dropWhile py_isspace (x # a @ [y]) = a @ [y]"
    using assms(1,2,4) by (cases a) simp_all
  moreover have "dropWhile py_isspace (rev (a @ [y])) = rev a"
    using assms(1,3,5) by (cases "rev a") (simp_all add: last_rev[symmetric] hd_rev)
  ultimately show ?thesis by (simp add: py_strip_def)
qed

lemma py_replace_keeps:
  assumes "old \<noteq> []" and "hd old \<notin> set s"
  shows "py_replace old new (s @ r) = s @ py_replace old new r"
  using assms(2)
proof (induction s)
  case Nil
  show ?case by simp
next
  case (Cons x xs)
  then have "x \<noteq> hd old" by auto
  then have "\<not> prefix old (x # xs @ r)" using assms(1) by (cases old) auto
  then have "py_replace old new (x # xs @ r) = x # py_replace old new (xs @ r)"
    using assms(1) by (subst py_replace.simps) simp
  then show ?case using Cons by simp
qed

lemma py_replace_prefix:
  "old \<noteq> [] \<Longrightarrow> py_replace old new (old @ r) = new @ py_replace old new r"
  by (subst py_replace.simps) simp

lemma replace_json_tail: "py_replace ''```json'' [] ''```'' = ''```''"
  by (simp add: py_replace.simps)

lemma nl_space: "py_isspace (CHR 0x0A)"
  by (simp add: py_isspace_def)

lemma tick_no_space: "\<not> py_isspace (CHR ''`'')"
  by (simp add: py_isspace_def)

lemma fence_stripped_array:
  assumes a: "a \<noteq> []" "hd a = CHR ''[''" "last a = CHR '']''" "CHR ''`'' \<notin> set a"
  shows "fence_stripped a = a"
    and "fence_stripped (''```json'' @ CHR 0x0A # a @ CHR 0x0A # ''```'') = a"
    and "fence_stripped (''```'' @ CHR 0x0A # a @ CHR 0x0A # ''```'') = a"
proof -
  have h: "\<not> py_isspace (hd a)" and l: "\<not> py_isspace (last a)"
    using a by (simp_all add: py_isspace_def)
  have sa: "py_strip a = a" using a(1) h l by (rule py_strip_trimmed)
  have np: "\<not> prefix ''```'' a" using a(1,2) by (cases a) auto
  then have "\<not> prefix ''```json'' a" using a(1,2) by (cases a) auto
  then show "fence_stripped a = a" using sa np by (simp add: fence_stripped_def)
  let ?mid = "CHR 0x0A # a @ [CHR 0x0A]"
  have mid: "CHR ''`'' \<notin> set ?mid" using a(4) by simp
  have sm: "py_strip ?mid = a" using a(1) h l nl_space nl_space by (rule py_strip_between)
  let ?F1 = "''```json'' @ CHR 0x0A # a @ CHR 0x0A # ''```''"
  have s1: "py_strip ?F1 = ?F1"
    by (rule py_strip_trimmed) (simp_all add: tick_no_space)
  have "py_replace ''```json'' [] ?F1 = py_replace ''```json'' [] (?mid @ ''```'')"
    using py_replace_prefix [of "''```json''" "[]" "?mid @ ''```''"] by simp
  also have "\<dots> = ?mid @ py_replace ''```json'' [] ''```''"
    using mid by (intro py_replace_keeps) simp_all
  also have "\<dots> = ?mid @ ''```''" by (simp only: replace_json_tail)
  finally have r1: "py_replace ''```json'' [] ?F1 = ?mid @ ''```''" .
  have "py_replace ''```'' [] (?mid @ ''```'') = ?mid @ py_replace ''```'' [] ''```''"
    using mid by (intro py_replace_keeps) simp_all
  also have "py_replace ''```'' [] ''```'' = []" by (simp add: py_replace.simps)
  finally have r2: "py_replace ''```'' [] (?mid @ ''```'') = ?mid" by simp
  show "fence_stripped ?F1 = a"
    unfolding fence_stripped_def Let_def s1 r1 r2 sm by simp
  let ?F2 = "''```'' @ CHR 0x0A # a @ CHR 0x0A # ''```''"
  have s2: "py_strip ?F2 = ?F2"
    by (rule py_strip_trimmed) (simp_all add: tick_no_space)
  have r3: "py_replace ''```'' [] ?F2 = ?mid"
    using py_replace_prefix [of "''```''" "[]" "?mid @ ''```''"] r2 by simp
  have nj: "\<not> prefix ''```json'' ?F2" by simp
  have pj: "prefix ''```'' ?F2" by simp
  show "fence_stripped ?F2 = a"
    unfolding fence_stripped_def Let_def s2 using nj pj r3 sm by simp
qed

lemma dishes_scan_skip:
  "list_all (\<lambda>x. \<forall>c xs. assistant_text x = Some c \<and> loads (fence_stripped c) = Some (PList xs)
              \<longrightarrow> length xs < 3) items \<Longrightarrow>
   dishes_scan loads (items @ others) = dishes_scan loads others"
proof (induction items)
  case Nil
  show ?case by simp
next
  case (Cons item items)
  have "list_all (\<lambda>x. \<forall>c xs. assistant_text x = Some c \<and> loads (fence_stripped c) = Some (PList xs)
              \<longrightarrow> length xs < 3) items"
    using Cons.prems unfolding list.pred_inject by (rule conjunct2)
  then have rest: "dishes_scan loads (items @ others) = dishes_scan loads others" by (rule Cons.IH)
  have here: "\<forall>c xs. assistant_text item = Some c \<and> loads (fence_stripped c) = Some (PList xs)
              \<longrightarrow> length xs < 3"
    using Cons.prems unfolding list.pred_inject by (rule conjunct1)
  show ?case
  proof (cases "assistant_text item")
    case None
    then show ?thesis using rest by simp
  next
    case (Some c)
    show ?thesis
    proof (cases "loads (fence_stripped c)")
      case None
      then show ?thesis using Some rest by simp
    next
      case v: (Some v)
      show ?thesis
      proof (cases v)
        case (PList xs)
        then have "length xs < 3" using here Some v by blast
        then show ?thesis using Some v PList rest by simp
      qed (use Some v rest in simp_all)
    qed
  qed
qed

lemma dishes_scan_fallback:
  assumes "list_all (\<lambda>x. \<forall>c xs. assistant_text x = Some c
              \<and> loads (fence_stripped c) = Some (PList xs) \<longrightarrow> length xs < 3) items"
  shows "dishes_scan loads items = fallback_dishes"
  using dishes_scan_skip [OF assms, of "[]"] by simp

lemma dishes_scan_decides:
  assumes "assistant_text m = Some c"
    and "loads (fence_stripped c) = Some (PList xs)" and "3 \<le> length xs"
    and "list_all (\<lambda>x. \<forall>c xs. assistant_text x = Some c
              \<and> loads (fence_stripped c) = Some (PList xs) \<longrightarrow> length xs < 3) post"
  shows "dishes_scan loads (rev (pre @ m # post)) = take 3 xs"
proof -
  have "list_all (\<lambda>x. \<forall>c xs. assistant_text x = Some c
              \<and> loads (fence_stripped c) = Some (PList xs) \<longrightarrow> length xs < 3) (rev post)"
    using assms(4) by (simp only: list_all_rev)
  then have "dishes_scan loads (rev post @ m # rev pre) = dishes_scan loads (m # rev pre)"
    by (rule dishes_scan_skip)
  then show ?thesis using assms(1,2,3) by simp
qed

text \<open>
  C5 (as amended): let the run succeed with the output \<open>out\<close>. Call a message decisive
  when it is an assistant message whose content, cleaned up, parses to a list of 3 or
  more elements. Both extractors return the first 3 elements of the list of the last
  decisive message of \<open>out\<close>: the messages after it, whose content does not parse or
  gives something that is not a list or a shorter list, are passed over. In particular,
  when the content of that message is the text of a JSON array of 3 or more elements
  that holds no backtick, bare or between a \<^verbatim>\<open>```json\<close> or \<^verbatim>\<open>```\<close> line and a closing
  \<^verbatim>\<open>```\<close> line, the first 3 elements of that array are returned. When \<open>out\<close> has no
  decisive message, the fallback list is returned.
\<close>

theorem extract_dishes_array:
  assumes run_ui: "run_execution svc (DishPrompt city (take 2000 t)) 30
                     = Some (Terminal ''succeeded'' out, tr)"
    and run_main: "run_execution svc (DishPrompt city (take 3000 t)) 30
                     = Some (Terminal ''succeeded'' out, tr')"
    and t: "t \<noteq> []"
  shows "(\<forall>pre m post c a xs.
            out = pre @ m # post \<and> assistant_text m = Some c
            \<and> list_all (\<lambda>x. \<forall>c xs. assistant_text x = Some c
                   \<and> loads (fence_stripped c) = Some (PList xs) \<longrightarrow> length xs < 3) post
            \<and> a \<noteq> [] \<and> hd a = CHR ''['' \<and> last a = CHR '']'' \<and> CHR ''`'' \<notin> set a
            \<and> loads a = Some (PList xs) \<and> 3 \<le> length xs
            \<and> (c = a \<or> c = ''```json'' @ CHR 0x0A # a @ CHR 0x0A # ''```''
                     \<or> c = ''```'' @ CHR 0x0A # a @ CHR 0x0A # ''```'') \<longrightarrow>
            extract_dishes_from_text_ui loads svc city (Some t) = Some (take 3 xs, tr)
            \<and> extract_dishes_from_text_main loads svc city (Some t) = Some (Inr (take 3 xs), tr'))
       \<and> (\<forall>pre m post c xs.
            out = pre @ m # post \<and> assistant_text m = Some c
            \<and> list_all (\<lambda>x. \<forall>c xs. assistant_text x = Some c
                   \<and> loads (fence_stripped c) = Some (PList xs) \<longrightarrow> length xs < 3) post
            \<and> loads (fence_stripped c) = Some (PList xs) \<and> 3 \<le> length xs \<longrightarrow>
            extract_dishes_from_text_ui loads svc city (Some t) = Some (take 3 xs, tr)
            \<and> extract_dishes_from_text_main loads svc city (Some t) = Some (Inr (take 3 xs), tr'))
       \<and> (list_all (\<lambda>x. \<forall>c xs. assistant_text x = Some c
                   \<and> loads (fence_stripped c) = Some (PList xs) \<longrightarrow> length xs < 3) out \<longrightarrow>
            extract_dishes_from_text_ui loads svc city (Some t)
              = Some ([PStr ''Traditional Dish 1'', PStr ''Traditional Dish 2'',
                       PStr ''Traditional Dish 3''], tr)
            \<and> extract_dishes_from_text_main loads svc city (Some t)
              = Some (Inr [PStr ''Traditional Dish 1'', PStr ''Traditional Dish 2'',
                           PStr ''Traditional Dish 3''], tr'))"
proof -
  let ?D = "dishes_scan loads (rev out)"
  let ?R = "\<lambda>ds. extract_dishes_from_text_ui loads svc city (Some t) = Some (ds, tr)
            \<and> extract_dishes_from_text_main loads svc city (Some t) = Some (Inr ds, tr')"
  have eu: "extract_dishes_from_text_ui loads svc city (Some t) = Some (?D, tr)"
    using run_ui t by (simp add: extract_dishes_from_text_ui_def)
  have em: "extract_dishes_from_text_main loads svc city (Some t) = Some (Inr ?D, tr')"
    using run_main by (simp add: extract_dishes_from_text_main_def)
  have two: "?R (take 3 xs)"
    if h: "out = pre @ m # post \<and> assistant_text m = Some c
            \<and> list_all (\<lambda>x. \<forall>c xs. assistant_text x = Some c
                   \<and> loads (fence_stripped c) = Some (PList xs) \<longrightarrow> length xs < 3) post
            \<and> loads (fence_stripped c) = Some (PList xs) \<and> 3 \<le> length xs"
    for pre m post c xs
  proof -
    have "dishes_scan loads (rev (pre @ m # post)) = take 3 xs"
      using h by (intro dishes_scan_decides [of m c]) blast+
    then have "?D = take 3 xs" using h by simp
    then show ?thesis using eu em by simp
  qed
  have one: "?R (take 3 xs)"
    if h: "out = pre @ m # post \<and> assistant_text m = Some c
            \<and> list_all (\<lambda>x. \<forall>c xs. assistant_text x = Some c
                   \<and> loads (fence_stripped c) = Some (PList xs) \<longrightarrow> length xs < 3) post
            \<and> a \<noteq> [] \<and> hd a = CHR ''['' \<and> last a = CHR '']'' \<and> CHR ''`'' \<notin> set a
            \<and> loads a = Some (PList xs) \<and> 3 \<le> length xs
            \<and> (c = a \<or> c = ''```json'' @ CHR 0x0A # a @ CHR 0x0A # ''```''
                     \<or> c = ''```'' @ CHR 0x0A # a @ CHR 0x0A # ''```'')"
    for pre m post c a xs
  proof -
    have "fence_stripped c = a"
      using h fence_stripped_array [of a] by blast
    then have "out = pre @ m # post \<and> assistant_text m = Some c
            \<and> list_all (\<lambda>x. \<forall>c xs. assistant_text x = Some c
                   \<and> loads (fence_stripped c) = Some (PList xs) \<longrightarrow> length xs < 3) post
            \<and> loads (fence_stripped c) = Some (PList xs) \<and> 3 \<le> length xs"
      using h by simp
    then show ?thesis by (rule two)
  qed
  have three: "?R [PStr ''Traditional Dish 1'', PStr ''Traditional Dish 2'',
                   PStr ''Traditional Dish 3'']"
    if h: "list_all (\<lambda>x. \<forall>c xs. assistant_text x = Some c
                   \<and> loads (fence_stripped c) = Some (PList xs) \<longrightarrow> length xs < 3) out"
  proof -
    have "list_all (\<lambda>x. \<forall>c xs. assistant_text x = Some c
                   \<and> loads (fence_stripped c) = Some (PList xs) \<longrightarrow> length xs < 3) (rev out)"
      using h by (simp only: list_all_rev)
    then have "?D = fallback_dishes" by (rule dishes_scan_fallback)
    then show ?thesis using eu em by (simp add: fallback_dishes_def)
  qed
  show ?thesis
  proof (intro conjI allI impI)
    fix pre m post c a xs
    assume "out = pre @ m # post \<and> assistant_text m = Some c
            \<and> list_all (\<lambda>x. \<forall>c xs. assistant_text x = Some c
                   \<and> loads (fence_stripped c) = Some (PList xs) \<longrightarrow> length xs < 3) post
            \<and> a \<noteq> [] \<and> hd a = CHR ''['' \<and> last a = CHR '']'' \<and> CHR ''`'' \<notin> set a
            \<and> loads a = Some (PList xs) \<and> 3 \<le> length xs
            \<and> (c = a \<or> c = ''```json'' @ CHR 0x0A # a @ CHR 0x0A # ''```''
                     \<or> c = ''```'' @ CHR 0x0A # a @ CHR 0x0A # ''```'')"
    then have r: "?R (take 3 xs)" by (rule one)
    from r show "extract_dishes_from_text_ui loads svc city (Some t) = Some (take 3 xs, tr)"
      by (rule conjunct1)
    from r show "extract_dishes_from_text_main loads svc city (Some t) = Some (Inr (take 3 xs), tr')"
      by (rule conjunct2)
  next
    fix pre m post c xs
    assume "out = pre @ m # post \<and> assistant_text m = Some c
            \<and> list_all (\<lambda>x. \<forall>c xs. assistant_text x = Some c
                   \<and> loads (fence_stripped c) = Some (PList xs) \<longrightarrow> length xs < 3) post
            \<and> loads (fence_stripped c) = Some (PList xs) \<and> 3 \<le> length xs"
    then have r: "?R (take 3 xs)" by (rule two)
    from r show "extract_dishes_from_text_ui loads svc city (Some t) = Some (take 3 xs, tr)"
      by (rule conjunct1)
    from r show "extract_dishes_from_text_main loads svc city (Some t) = Some (Inr (take 3 xs), tr')"
      by (rule conjunct2)
  next
    assume "list_all (\<lambda>x. \<forall>c xs. assistant_text x = Some c
                   \<and> loads (fence_stripped c) = Some (PList xs) \<longrightarrow> length xs < 3) out"
    then have r: "?R [PStr ''Traditional Dish 1'', PStr ''Traditional Dish 2'',
                   PStr ''Traditional Dish 3'']" by (rule three)
    from r show "extract_dishes_from_text_ui loads svc city (Some t)
              = Some ([PStr ''Traditional Dish 1'', PStr ''Traditional Dish 2'',
                       PStr ''Traditional Dish 3''], tr)"
      by (rule conjunct1)
    from r show "extract_dishes_from_text_main loads svc city (Some t)
              = Some (Inr [PStr ''Traditional Dish 1'', PStr ''Traditional Dish 2'',
                           PStr ''Traditional Dish 3''], tr')"
      by (rule conjunct2)
  qed
qed

text \<open>
  C5 as stated fails in three ways. A response that contains a valid array of three
  names after a word of prose is not parsed, and the fallback list is returned. From a
  fenced array whose first name holds three backticks, the backticks are deleted with
  the fences, so that the name returned is not the array's. And when the last assistant
  message is an array of one element and an earlier one is an array of four, the result
  is not the fallback list but the first three elements of the earlier array.
\<close>

theorem extract_dishes_prose_around_array:
  \<open>loads_table [(''["Pho", "Banh mi", "Bun cha"]'',
                  PList [PStr ''Pho'', PStr ''Banh mi'', PStr ''Bun cha''])]
      ''["Pho", "Banh mi", "Bun cha"]''
     = Some (PList [PStr ''Pho'', PStr ''Banh mi'', PStr ''Bun cha''])
   \<and> extract_dishes_from_text_ui
      (loads_table [(''["Pho", "Banh mi", "Bun cha"]'',
                     PList [PStr ''Pho'', PStr ''Banh mi'', PStr ''Bun cha''])])
      (answering ''succeeded'' [assistant_says ''Sure: ["Pho", "Banh mi", "Bun cha"]''] 2)
      ''Hanoi'' (Some ''pho and more'')
     = Some ([PStr ''Traditional Dish 1'', PStr ''Traditional Dish 2'', PStr ''Traditional Dish 3''],
             [TasksCreate (DishPrompt ''Hanoi'' ''pho and more''), ExecutionsCreate, ExecutionsGet])
   \<and> extract_dishes_from_text_main
      (loads_table [(''["Pho", "Banh mi", "Bun cha"]'',
                     PList [PStr ''Pho'', PStr ''Banh mi'', PStr ''Bun cha''])])
      (answering ''succeeded'' [assistant_says ''Sure: ["Pho", "Banh mi", "Bun cha"]''] 2)
      ''Hanoi'' (Some ''pho and more'')
     = Some (Inr [PStr ''Traditional Dish 1'', PStr ''Traditional Dish 2'', PStr ''Traditional Dish 3''],
             [TasksCreate (DishPrompt ''Hanoi'' ''pho and more''), ExecutionsCreate, ExecutionsGet])
   \<and> extract_dishes_from_text_ui
      (loads_table [(''["a```b", "c", "d"]'', PList [PStr ''a```b'', PStr ''c'', PStr ''d'']),
                    (''["ab", "c", "d"]'', PList [PStr ''ab'', PStr ''c'', PStr ''d''])])
      (answering ''succeeded''
         [assistant_says (''```json'' @ CHR 0x0A # ''["a```b", "c", "d"]'' @ CHR 0x0A # ''```'')] 2)
      ''Hanoi'' (Some ''pho and more'')
     = Some ([PStr ''ab'', PStr ''c'', PStr ''d''],
             [TasksCreate (DishPrompt ''Hanoi'' ''pho and more''), ExecutionsCreate, ExecutionsGet])
   \<and> extract_dishes_from_text_ui
      (loads_table [(''["Pho", "Banh mi", "Bun cha", "Com"]'',
                     PList [PStr ''Pho'', PStr ''Banh mi'', PStr ''Bun cha'', PStr ''Com'']),
                    (''[1]'', PList [PNum 1])])
      (answering ''succeeded''
         [assistant_says ''["Pho", "Banh mi", "Bun cha", "Com"]'', assistant_says ''[1]''] 2)
      ''Hanoi'' (Some ''pho and more'')
     = Some ([PStr ''Pho'', PStr ''Banh mi'', PStr ''Bun cha''],
             [TasksCreate (DishPrompt ''Hanoi'' ''pho and more''), ExecutionsCreate, ExecutionsGet])
   \<and> extract_dishes_from_text_main
      (loads_table [(''["Pho", "Banh mi", "Bun cha", "Com"]'',
                     PList [PStr ''Pho'', PStr ''Banh mi'', PStr ''Bun cha'', PStr ''Com'']),
                    (''[1]'', PList [PNum 1])])
      (answering ''succeeded''
         [assistant_says ''["Pho", "Banh mi", "Bun cha", "Com"]'', assistant_says ''[1]''] 2)
      ''Hanoi'' (Some ''pho and more'')
     = Some (Inr [PStr ''Pho'', PStr ''Banh mi'', PStr ''Bun cha''],
             [TasksCreate (DishPrompt ''Hanoi'' ''pho and more''), ExecutionsCreate, ExecutionsGet])\<close>
proof -
  have s: \<open>fence_stripped ''Sure: ["Pho", "Banh mi", "Bun cha"]'' = ''Sure: ["Pho", "Banh mi", "Bun cha"]''\<close>
    by (simp add: fence_stripped_def py_strip_def py_isspace_def)
  have f: \<open>fence_stripped (''```json'' @ CHR 0x0A # ''["a```b", "c", "d"]'' @ CHR 0x0A # ''```'')
             = ''["ab", "c", "d"]''\<close>
    by (simp add: fence_stripped_def py_strip_def py_isspace_def py_replace.simps)
  have g: \<open>fence_stripped ''["Pho", "Banh mi", "Bun cha", "Com"]'' = ''["Pho", "Banh mi", "Bun cha", "Com"]''\<close>
    by (simp add: fence_stripped_def py_strip_def py_isspace_def)
  have k: \<open>fence_stripped ''[1]'' = ''[1]''\<close>
    by (simp add: fence_stripped_def py_strip_def py_isspace_def)
  have a: \<open>extract_dishes_from_text_ui
      (loads_table [(''["a```b", "c", "d"]'', PList [PStr ''a```b'', PStr ''c'', PStr ''d'']),
                    (''["ab", "c", "d"]'', PList [PStr ''ab'', PStr ''c'', PStr ''d''])])
      (answering ''succeeded''
         [assistant_says (''```json'' @ CHR 0x0A # ''["a```b", "c", "d"]'' @ CHR 0x0A # ''```'')] 2)
      ''Hanoi'' (Some ''pho and more'')
     = Some ([PStr ''ab'', PStr ''c'', PStr ''d''],
             [TasksCreate (DishPrompt ''Hanoi'' ''pho and more''), ExecutionsCreate, ExecutionsGet])\<close>
    using f
    by (simp add: extract_dishes_from_text_ui_def run_answering_terminal
        assistant_text_def assistant_says_def loads_table_def)
  have b: \<open>loads_table [(''["Pho", "Banh mi", "Bun cha"]'',
                  PList [PStr ''Pho'', PStr ''Banh mi'', PStr ''Bun cha''])]
      ''["Pho", "Banh mi", "Bun cha"]''
     = Some (PList [PStr ''Pho'', PStr ''Banh mi'', PStr ''Bun cha''])
   \<and> extract_dishes_from_text_ui
      (loads_table [(''["Pho", "Banh mi", "Bun cha"]'',
                     PList [PStr ''Pho'', PStr ''Banh mi'', PStr ''Bun cha''])])
      (answering ''succeeded'' [assistant_says ''Sure: ["Pho", "Banh mi", "Bun cha"]''] 2)
      ''Hanoi'' (Some ''pho and more'')
     = Some ([PStr ''Traditional Dish 1'', PStr ''Traditional Dish 2'', PStr ''Traditional Dish 3''],
             [TasksCreate (DishPrompt ''Hanoi'' ''pho and more''), ExecutionsCreate, ExecutionsGet])
   \<and> extract_dishes_from_text_main
      (loads_table [(''["Pho", "Banh mi", "Bun cha"]'',
                     PList [PStr ''Pho'', PStr ''Banh mi'', PStr ''Bun cha''])])
      (answering ''succeeded'' [assistant_says ''Sure: ["Pho", "Banh mi", "Bun cha"]''] 2)
      ''Hanoi'' (Some ''pho and more'')
     = Some (Inr [PStr ''Traditional Dish 1'', PStr ''Traditional Dish 2'', PStr ''Traditional Dish 3''],
             [TasksCreate (DishPrompt ''Hanoi'' ''pho and more''), ExecutionsCreate, ExecutionsGet])\<close>
    by (simp add: extract_dishes_from_text_ui_def extract_dishes_from_text_main_def
        run_answering_terminal s assistant_text_def assistant_says_def loads_table_def
        fallback_dishes_def)
  have c: \<open>extract_dishes_from_text_ui
      (loads_table [(''["Pho", "Banh mi", "Bun cha", "Com"]'',
                     PList [PStr ''Pho'', PStr ''Banh mi'', PStr ''Bun cha'', PStr ''Com'']),
                    (''[1]'', PList [PNum 1])])
      (answering ''succeeded''
         [assistant_says ''["Pho", "Banh mi", "Bun cha", "Com"]'', assistant_says ''[1]''] 2)
      ''Hanoi'' (Some ''pho and more'')
     = Some ([PStr ''Pho'', PStr ''Banh mi'', PStr ''Bun cha''],
             [TasksCreate (DishPrompt ''Hanoi'' ''pho and more''), ExecutionsCreate, ExecutionsGet])
   \<and> extract_dishes_from_text_main
      (loads_table [(''["Pho", "Banh mi", "Bun cha", "Com"]'',
                     PList [PStr ''Pho'', PStr ''Banh mi'', PStr ''Bun cha'', PStr ''Com'']),
                    (''[1]'', PList [PNum 1])])
      (answering ''succeeded''
         [assistant_says ''["Pho", "Banh mi", "Bun cha", "Com"]'', assistant_says ''[1]''] 2)
      ''Hanoi'' (Some ''pho and more'')
     = Some (Inr [PStr ''Pho'', PStr ''Banh mi'', PStr ''Bun cha''],
             [TasksCreate (DishPrompt ''Hanoi'' ''pho and more''), ExecutionsCreate, ExecutionsGet])\<close>
    by (simp add: extract_dishes_from_text_ui_def extract_dishes_from_text_main_def
        run_answering_terminal g k assistant_text_def assistant_says_def loads_table_def)
  from a b c show ?thesis by (intro conjI) (elim conjE, assumption)+
qed

text \<open>
  An array of four names between \<^verbatim>\<open>```json\<close> and \<^verbatim>\<open>```\<close> lines, followed by a later
  assistant message that is no JSON: the later message is passed over and the first
  three names of the array are returned.
\<close>

theorem extract_dishes_array_witness:
  \<open>extract_dishes_from_text_ui
      (loads_table [(''["Pho", "Banh mi", "Bun cha", "Com"]'',
                     PList [PStr ''Pho'', PStr ''Banh mi'', PStr ''Bun cha'', PStr ''Com''])])
      (answering ''succeeded''
         [assistant_says (''```json'' @ CHR 0x0A # ''["Pho", "Banh mi", "Bun cha", "Com"]'' @ CHR 0x0A # ''```''),
          assistant_says ''Sorry''] 2)
      ''Hanoi'' (Some ''pho and more'')
     = Some ([PStr ''Pho'', PStr ''Banh mi'', PStr ''Bun cha''],
             [TasksCreate (DishPrompt ''Hanoi'' ''pho and more''), ExecutionsCreate, ExecutionsGet])
   \<and> extract_dishes_from_text_main
      (loads_table [(''["Pho", "Banh mi", "Bun cha", "Com"]'',
                     PList [PStr ''Pho'', PStr ''Banh mi'', PStr ''Bun cha'', PStr ''Com''])])
      (answering ''succeeded''
         [assistant_says (''```json'' @ CHR 0x0A # ''["Pho", "Banh mi", "Bun cha", "Com"]'' @ CHR 0x0A # ''```''),
          assistant_says ''Sorry''] 2)
      ''Hanoi'' (Some ''pho and more'')
     = Some (Inr [PStr ''Pho'', PStr ''Banh mi'', PStr ''Bun cha''],
             [TasksCreate (DishPrompt ''Hanoi'' ''pho and more''), ExecutionsCreate, ExecutionsGet])\<close>
proof -
  let ?a = \<open>''["Pho", "Banh mi", "Bun cha", "Com"]''\<close>
  let ?xs = "[PStr ''Pho'', PStr ''Banh mi'', PStr ''Bun cha'', PStr ''Com'']"
  let ?c = "''```json'' @ CHR 0x0A # ?a @ CHR 0x0A # ''```''"
  let ?m = "assistant_says ?c"
  let ?n = "assistant_says ''Sorry''"
  let ?svc = "answering ''succeeded'' [?m, ?n] 2"
  let ?loads = "loads_table [(?a, PList ?xs)]"
  let ?tr = "[TasksCreate (DishPrompt ''Hanoi'' ''pho and more''), ExecutionsCreate, ExecutionsGet]"
  have r: "run_execution ?svc (DishPrompt ''Hanoi'' ''pho and more'') 30
             = Some (Terminal ''succeeded'' [?m, ?n], ?tr)"
    by (rule run_answering_terminal) simp
  have r1: "run_execution ?svc (DishPrompt ''Hanoi'' (take 2000 ''pho and more'')) 30
             = Some (Terminal ''succeeded'' [?m, ?n], ?tr)"
    using r by simp
  have r2: "run_execution ?svc (DishPrompt ''Hanoi'' (take 3000 ''pho and more'')) 30
             = Some (Terminal ''succeeded'' [?m, ?n], ?tr)"
    using r by simp
  have t: "''pho and more'' \<noteq> []" by simp
  have e: "[?m, ?n] = [] @ ?m # [?n]" by simp
  have m: "assistant_text ?m = Some ?c" by (simp add: assistant_text_def assistant_says_def)
  have fs: "fence_stripped ''Sorry'' = ''Sorry''"
    by (simp add: fence_stripped_def py_strip_def py_isspace_def)
  have n: "list_all (\<lambda>x. \<forall>c xs. assistant_text x = Some c
                   \<and> ?loads (fence_stripped c) = Some (PList xs) \<longrightarrow> length xs < 3) [?n]"
    using fs by (auto simp: assistant_text_def assistant_says_def loads_table_def)
  have q: "?a \<noteq> [] \<and> hd ?a = CHR ''['' \<and> last ?a = CHR '']'' \<and> CHR ''`'' \<notin> set ?a
               \<and> ?loads ?a = Some (PList ?xs) \<and> 3 \<le> length ?xs
               \<and> (?c = ?a \<or> ?c = ''```json'' @ CHR 0x0A # ?a @ CHR 0x0A # ''```''
                        \<or> ?c = ''```'' @ CHR 0x0A # ?a @ CHR 0x0A # ''```'')"
    by (simp add: loads_table_def)
  note th0 = extract_dishes_array [OF r1 r2 t, of ?loads]
  note inst = th0 [THEN conjunct1, THEN spec, THEN spec, THEN spec, THEN spec, THEN spec,
                   THEN spec, THEN mp]
  have "[?m, ?n] = [] @ ?m # [?n] \<and> assistant_text ?m = Some ?c
        \<and> list_all (\<lambda>x. \<forall>c xs. assistant_text x = Some c
                   \<and> ?loads (fence_stripped c) = Some (PList xs) \<longrightarrow> length xs < 3) [?n]
        \<and> ?a \<noteq> [] \<and> hd ?a = CHR ''['' \<and> last ?a = CHR '']'' \<and> CHR ''`'' \<notin> set ?a
               \<and> ?loads ?a = Some (PList ?xs) \<and> 3 \<le> length ?xs
               \<and> (?c = ?a \<or> ?c = ''```json'' @ CHR 0x0A # ?a @ CHR 0x0A # ''```''
                        \<or> ?c = ''```'' @ CHR 0x0A # ?a @ CHR 0x0A # ''```'')"
    using e m n q by (intro conjI) (elim conjE, assumption)+
  then have "extract_dishes_from_text_ui ?loads ?svc ''Hanoi'' (Some ''pho and more'') = Some (take 3 ?xs, ?tr)
            \<and> extract_dishes_from_text_main ?loads ?svc ''Hanoi'' (Some ''pho and more'') = Some (Inr (take 3 ?xs), ?tr)"
    by (rule inst)
  then show ?thesis by simp
qed

end
